theory Spec2Isabelle
  imports Main
begin

section \<open>Values, errors and the snapshot\<close>

text \<open>
  JavaScript values: step results, inputs and dependency descriptions are arbitrary
  values, which the context stores and hands back without looking into them.
  \<open>truthy\<close> is JavaScript's truthiness. Numbers are integers or \<open>NaN\<close>.
\<close>

datatype jsval =
    JUndefined
  | JNull
  | JBool bool
  | JNum int
  | JNaN
  | JStr string
  | JArr "jsval list"
  | JObj "(string \<times> jsval) list"

fun truthy :: "jsval \<Rightarrow> bool" where
  "truthy JUndefined = False"
| "truthy JNull = False"
| "truthy (JBool b) = b"
| "truthy (JNum n) = (n \<noteq> 0)"
| "truthy JNaN = False"
| "truthy (JStr s) = (s \<noteq> [])"
| "truthy (JArr xs) = True"
| "truthy (JObj kvs) = True"

text \<open>The string a template literal makes of a value.\<close>

fun decimal :: "nat \<Rightarrow> string" where
  "decimal n =
     (if n < 10 then [''0123456789'' ! n]
      else decimal (n div 10) @ [''0123456789'' ! (n mod 10)])"

declare decimal.simps [simp del]

fun join_comma :: "string list \<Rightarrow> string" where
  "join_comma [] = []"
| "join_comma [s] = s"
| "join_comma (s # t # ss) = s @ '','' @ join_comma (t # ss)"

fun js_to_string :: "jsval \<Rightarrow> string" where
  "js_to_string JUndefined = ''undefined''"
| "js_to_string JNull = ''null''"
| "js_to_string (JBool b) = (if b then ''true'' else ''false'')"
| "js_to_string (JNum n) = (if n < 0 then ''-'' @ decimal (nat (- n)) else decimal (nat n))"
| "js_to_string JNaN = ''NaN''"
| "js_to_string (JStr s) = s"
| "js_to_string (JArr xs) =
     join_comma (map (\<lambda>x. if x = JUndefined \<or> x = JNull then [] else js_to_string x) xs)"
| "js_to_string (JObj kvs) = ''[object Object]''"

text \<open>
  A computation instance (class \<open>PersistentComputation\<close>): the name of its constructor
  (\<open>this.constructor.name\<close>) and the two private fields \<open>#hasRecoveryData\<close> and
  \<open>#currentStepIndex\<close>. The reference \<open>this.ctx\<close> is replaced by passing the context
  explicitly.
\<close>

record computation =
  constructor_name :: string
  hasRecoveryDataFlag :: bool
  currentStepIndex :: nat

text \<open>
  What a \<open>throw\<close> or a rejected promise carries is any value: a plain value, possibly a
  falsy one, or an error object with \<open>name\<close> and \<open>message\<close>, to which
  \<open>ComputationFailedError\<close> adds \<open>cause\<close> and \<open>step\<close> (errors.js).
\<close>

datatype thrown =
    Value jsval
  | Exn (err_name: string) (err_message: string) (err_cause: "thrown option")
        (err_step: "computation option")

fun truthy_thrown :: "thrown \<Rightarrow> bool" where
  "truthy_thrown (Value v) = truthy v"
| "truthy_thrown (Exn n m c s) = True"

definition TypeError :: "string \<Rightarrow> thrown" where
  "TypeError msg = Exn ''TypeError'' msg None None"

definition BaseComputationError :: "string \<Rightarrow> thrown" where
  "BaseComputationError msg = Exn ''BaseComputationError'' msg None None"

text \<open>
  \<open>error.message\<close>: reading a property of \<open>undefined\<close> or \<open>null\<close> throws a TypeError,
  a primitive or an array has no such property, an object has it when it carries it.
\<close>

fun message_of :: "thrown \<Rightarrow> thrown + jsval" where
  "message_of (Exn n m c s) = Inr (JStr m)"
| "message_of (Value JUndefined) =
     Inl (TypeError ''Cannot read properties of undefined (reading 'message')'')"
| "message_of (Value JNull) =
     Inl (TypeError ''Cannot read properties of null (reading 'message')'')"
| "message_of (Value (JObj kvs)) =
     Inr (case map_of kvs ''message'' of None \<Rightarrow> JUndefined | Some v \<Rightarrow> v)"
| "message_of (Value v) = Inr JUndefined"

text \<open>
  \<open>new ComputationFailedError(error, step)\<close>: the message is built first, from
  \<open>step.constructor.name\<close> and \<open>error.message\<close>, so the constructor itself throws when
  \<open>error\<close> is \<open>undefined\<close> or \<open>null\<close>.
\<close>

definition ComputationFailedError :: "thrown \<Rightarrow> computation \<Rightarrow> thrown + thrown" where
  "ComputationFailedError err step_obj =
     (case message_of err of
        Inl e \<Rightarrow> Inl e
      | Inr m \<Rightarrow>
          Inr (Exn ''ComputationFailedError''
                 (''Computation failed on step '' @ constructor_name step_obj
                    @ '' due to this error: '' @ js_to_string m)
                 (Some err) (Some step_obj)))"

text \<open>
  The recovery data (snapshot). The context creates it as
  \<open>{ computations: {}, dependencies: {} }\<close>, \<open>save\<close> sets \<open>error\<close>, and
  \<open>maybeRecover\<close> replaces it by whatever object was decoded, which need not have the
  field \<open>computations\<close> (\<open>None\<close>). \<open>computations\<close> is a plain object whose own
  properties are lists of step results.
\<close>

record snapshot =
  dependencies :: jsval
  computations :: "(string \<rightharpoonup> jsval list) option"
  error :: "thrown option"

text \<open>
  Indexing a plain object also finds what it inherits from \<open>Object.prototype\<close>: the
  methods, which are functions with a \<open>length\<close>, and the accessor \<open>__proto__\<close>, which
  gives the prototype object and has no \<open>length\<close>.
\<close>

definition objectPrototype :: "string \<rightharpoonup> nat option" where
  "objectPrototype =
     map_of [(''constructor'', Some 1), (''hasOwnProperty'', Some 1),
             (''isPrototypeOf'', Some 1), (''propertyIsEnumerable'', Some 1),
             (''toLocaleString'', Some 0), (''toString'', Some 0), (''valueOf'', Some 0),
             (''__defineGetter__'', Some 2), (''__defineSetter__'', Some 2),
             (''__lookupGetter__'', Some 1), (''__lookupSetter__'', Some 1),
             (''__proto__'', None)]"

datatype stepData = StepList "jsval list" | Inherited "nat option"

definition getProperty :: "(string \<rightharpoonup> jsval list) \<Rightarrow> string \<Rightarrow> stepData option" where
  "getProperty obj key =
     (case obj key of
        Some xs \<Rightarrow> Some (StepList xs)
      | None \<Rightarrow> map_option Inherited (objectPrototype key))"

record run_result =
  result_name :: string
  result_value :: jsval

section \<open>Injected capabilities and the world they act on\<close>

text \<open>
  The transport and the transformer are options of the context. Both may throw.
  The transport (\<open>read\<close>, \<open>write\<close>, \<open>exists\<close>) acts on an external world \<open>'w\<close>;
  \<open>'b\<close> is the type of buffers. A decoded value is either falsy (\<open>None\<close>, standing for
  \<open>null\<close>, \<open>undefined\<close>, \<open>false\<close>, \<open>0\<close>, the empty string, \<open>NaN\<close>) or a snapshot object.
  The logger and the debug level are left out, since logging does not change what the
  context does, and the recovery location is taken as already resolved.
\<close>

record ('w, 'b) transport =
  t_read :: "string \<Rightarrow> 'w \<Rightarrow> (thrown + 'b) \<times> 'w"
  t_write :: "string \<Rightarrow> 'b \<Rightarrow> 'w \<Rightarrow> (thrown + unit) \<times> 'w"
  t_exists :: "string \<Rightarrow> 'w \<Rightarrow> (thrown + bool) \<times> 'w"

record 'b transformer =
  serialize :: "snapshot \<Rightarrow> thrown + 'b"
  deserialize :: "'b \<Rightarrow> thrown + snapshot option"

record ('w, 'b) options =
  fromScratch :: bool
  recoveryDataLocation :: string
  transport :: "('w, 'b) transport"
  transformer :: "'b transformer"

text \<open>
  What a test observes with mocks is kept as a trace: every call of a transport
  method and every invocation of a step callback appends one event.
\<close>

datatype 'b event = Exists string | Read string | Write string 'b | Call

record ('w, 'b) world =
  external :: 'w
  trace :: "'b event list"

record ('w, 'b) pc_context =
  options :: "('w, 'b) options"
  results :: "run_result list"
  recoveryData :: snapshot

definition PersistentComputationContext ::
  "('w, 'b) options \<Rightarrow> (string \<times> jsval) list \<Rightarrow> ('w, 'b) pc_context" where
  "PersistentComputationContext opts deps =
     \<lparr> options = opts, results = [],
       recoveryData =
         \<lparr> dependencies = JObj deps, computations = Some Map.empty, error = None \<rparr> \<rparr>"

definition transport_exists ::
  "('w, 'b) pc_context \<Rightarrow> ('w, 'b) world \<Rightarrow> (thrown + bool) \<times> ('w, 'b) world" where
  "transport_exists ctx w =
     (let loc = recoveryDataLocation (options ctx);
          (r, x) = t_exists (transport (options ctx)) loc (external w)
      in (r, \<lparr> external = x, trace = trace w @ [Exists loc] \<rparr>))"

definition transport_read ::
  "('w, 'b) pc_context \<Rightarrow> ('w, 'b) world \<Rightarrow> (thrown + 'b) \<times> ('w, 'b) world" where
  "transport_read ctx w =
     (let loc = recoveryDataLocation (options ctx);
          (r, x) = t_read (transport (options ctx)) loc (external w)
      in (r, \<lparr> external = x, trace = trace w @ [Read loc] \<rparr>))"

definition transport_write ::
  "('w, 'b) pc_context \<Rightarrow> 'b \<Rightarrow> ('w, 'b) world \<Rightarrow> (thrown + unit) \<times> ('w, 'b) world" where
  "transport_write ctx data w =
     (let loc = recoveryDataLocation (options ctx);
          (r, x) = t_write (transport (options ctx)) loc data (external w)
      in (r, \<lparr> external = x, trace = trace w @ [Write loc data] \<rparr>))"

definition invoke ::
  "('w \<Rightarrow> (thrown + jsval) \<times> 'w) \<Rightarrow> ('w, 'b) world \<Rightarrow> (thrown + jsval) \<times> ('w, 'b) world" where
  "invoke fn w =
     (let (r, x) = fn (external w)
      in (r, \<lparr> external = x, trace = trace w @ [Call] \<rparr>))"

section \<open>The context: recovery decision, save, flush, step lookup\<close>

text \<open>
  \<open>sameDeps\<close> calls the imported \<open>fast-deep-equal\<close>; the library function is a parameter.
\<close>

definition sameDeps :: "(jsval \<Rightarrow> jsval \<Rightarrow> bool) \<Rightarrow> jsval \<Rightarrow> jsval \<Rightarrow> bool" where
  "sameDeps fastDeepEqual currentDeps recoveredDeps = fastDeepEqual currentDeps recoveredDeps"

definition maybeRecover ::
  "(jsval \<Rightarrow> jsval \<Rightarrow> bool) \<Rightarrow> ('w, 'b) pc_context \<Rightarrow> ('w, 'b) world
     \<Rightarrow> (thrown + bool) \<times> ('w, 'b) pc_context \<times> ('w, 'b) world" where
  "maybeRecover fastDeepEqual ctx w =
     (if fromScratch (options ctx) then (Inr False, ctx, w)
      else
        (case transport_exists ctx w of
           (Inl e, w1) \<Rightarrow> (Inl e, ctx, w1)
         | (Inr found, w1) \<Rightarrow>
             (if \<not> found then (Inr False, ctx, w1)
              else
                (case transport_read ctx w1 of
                   (Inl e, w2) \<Rightarrow> (Inl e, ctx, w2)
                 | (Inr data, w2) \<Rightarrow>
                     (case deserialize (transformer (options ctx)) data of
                        Inl e \<Rightarrow> (Inl e, ctx, w2)
                      | Inr None \<Rightarrow> (Inr False, ctx, w2)
                      | Inr (Some loaded) \<Rightarrow>
                          (if sameDeps fastDeepEqual (dependencies (recoveryData ctx))
                                (dependencies loaded)
                           then (Inr True, ctx\<lparr> recoveryData := loaded \<rparr>, w2)
                           else (Inr False, ctx, w2)))))))"

text \<open>
  \<open>save(error, step, result)\<close> returns nothing; the model gives what it throws, if
  anything, and the context it leaves. The first argument is \<open>null\<close> (\<open>None\<close>) or a
  caught value, recorded only when truthy (\<open>if (error)\<close>). The third argument is optional
  (\<open>arguments.length === 3\<close>): the list is created when \<open>computations[name]\<close> is falsy,
  that is when the object neither has nor inherits the name, and \<open>push\<close> is then called
  on whatever \<open>computations[name]\<close> is, which throws for an inherited member.
\<close>

definition save ::
  "thrown option \<Rightarrow> computation \<Rightarrow> jsval option \<Rightarrow> ('w, 'b) pc_context
     \<Rightarrow> (thrown + unit) \<times> ('w, 'b) pc_context" where
  "save err step_obj result ctx =
     (let rd1 = (case err of
                   None \<Rightarrow> recoveryData ctx
                 | Some e \<Rightarrow>
                     (if truthy_thrown e then (recoveryData ctx)\<lparr> error := Some e \<rparr>
                      else recoveryData ctx));
          key = constructor_name step_obj
      in (case result of
            None \<Rightarrow> (Inr (), ctx\<lparr> recoveryData := rd1 \<rparr>)
          | Some r \<Rightarrow>
              (case computations rd1 of
                 None \<Rightarrow>
                   (Inl (TypeError (''Cannot read properties of undefined (reading ''
                                     @ [CHR 0x27] @ key @ [CHR 0x27] @ '')'')),
                    ctx\<lparr> recoveryData := rd1 \<rparr>)
               | Some obj \<Rightarrow>
                   (case getProperty obj key of
                      None \<Rightarrow>
                        (Inr (),
                         ctx\<lparr> recoveryData := rd1\<lparr> computations := Some (obj(key \<mapsto> [r])) \<rparr> \<rparr>)
                    | Some (StepList xs) \<Rightarrow>
                        (Inr (),
                         ctx\<lparr> recoveryData :=
                                rd1\<lparr> computations := Some (obj(key \<mapsto> xs @ [r])) \<rparr> \<rparr>)
                    | Some (Inherited f) \<Rightarrow>
                        (Inl (TypeError
                           ''this.recoveryData.computations[step.constructor.name].push is not a function''),
                         ctx\<lparr> recoveryData := rd1 \<rparr>)))))"

definition flushRecoveryData ::
  "('w, 'b) pc_context \<Rightarrow> ('w, 'b) world \<Rightarrow> (thrown + unit) \<times> ('w, 'b) world" where
  "flushRecoveryData ctx w =
     (case serialize (transformer (options ctx)) (recoveryData ctx) of
        Inl e \<Rightarrow> (Inl e, w)
      | Inr data \<Rightarrow> transport_write ctx data w)"

text \<open>
  \<open>hasRecoveryData(computation)\<close>: indexing \<open>undefined\<close> throws; \<open>!stepData\<close> holds
  exactly when the name is neither own nor inherited (a list is truthy even when empty,
  and so is an inherited member); \<open>stepData.length <= currentStepIndex\<close> compares the
  length of the list, or of the inherited function, and is false when there is no
  \<open>length\<close>.
\<close>

definition hasRecoveryData :: "('w, 'b) pc_context \<Rightarrow> computation \<Rightarrow> thrown + bool" where
  "hasRecoveryData ctx c =
     (case computations (recoveryData ctx) of
        None \<Rightarrow>
          Inl (TypeError (''Cannot read properties of undefined (reading ''
                            @ [CHR 0x27] @ constructor_name c @ [CHR 0x27] @ '')''))
      | Some obj \<Rightarrow>
          (case getProperty obj (constructor_name c) of
             None \<Rightarrow> Inr False
           | Some (StepList xs) \<Rightarrow>
               (if length xs \<le> currentStepIndex c then Inr False else Inr True)
           | Some (Inherited (Some n)) \<Rightarrow>
               (if n \<le> currentStepIndex c then Inr False else Inr True)
           | Some (Inherited None) \<Rightarrow> Inr True))"

text \<open>
  \<open>getStepValue(computation)\<close> indexes what is found under the name: an index past
  the end of a list reads \<open>undefined\<close>, and so does any index into an inherited member.
\<close>

definition getStepValue :: "('w, 'b) pc_context \<Rightarrow> computation \<Rightarrow> thrown + jsval" where
  "getStepValue ctx c =
     (case computations (recoveryData ctx) of
        None \<Rightarrow>
          Inl (TypeError (''Cannot read properties of undefined (reading ''
                            @ [CHR 0x27] @ constructor_name c @ [CHR 0x27] @ '')''))
      | Some obj \<Rightarrow>
          (case getProperty obj (constructor_name c) of
             None \<Rightarrow>
               Inl (TypeError (''Cannot read properties of undefined (reading ''
                                 @ [CHR 0x27] @ decimal (currentStepIndex c) @ [CHR 0x27] @ '')''))
           | Some (StepList xs) \<Rightarrow>
               Inr (if currentStepIndex c < length xs then xs ! currentStepIndex c
                    else JUndefined)
           | Some (Inherited f) \<Rightarrow> Inr JUndefined))"

definition pushResult ::
  "computation \<Rightarrow> jsval \<Rightarrow> ('w, 'b) pc_context \<Rightarrow> ('w, 'b) pc_context" where
  "pushResult c v ctx =
     ctx\<lparr> results := results ctx @ [\<lparr> result_name = constructor_name c, result_value = v \<rparr>] \<rparr>"

definition getLastResult :: "('w, 'b) pc_context \<Rightarrow> run_result option" where
  "getLastResult ctx = (if results ctx = [] then None else Some (last (results ctx)))"

definition getResultByName :: "('w, 'b) pc_context \<Rightarrow> string \<Rightarrow> run_result option" where
  "getResultByName ctx computationName =
     find (\<lambda>r. result_name r = computationName) (results ctx)"

section \<open>Computations and the step boundary\<close>

definition markRecovered :: "computation \<Rightarrow> computation" where
  "markRecovered c = c\<lparr> hasRecoveryDataFlag := True \<rparr>"

definition step ::
  "('w \<Rightarrow> (thrown + jsval) \<times> 'w) \<Rightarrow> computation \<Rightarrow> ('w, 'b) pc_context \<Rightarrow> ('w, 'b) world
     \<Rightarrow> (thrown + jsval) \<times> computation \<times> ('w, 'b) pc_context \<times> ('w, 'b) world" where
  "step fn this ctx w =
     (case hasRecoveryData ctx this of
        Inl e \<Rightarrow> (Inl e, this, ctx, w)
      | Inr True \<Rightarrow>
          (case getStepValue ctx this of
             Inl e \<Rightarrow> (Inl e, this, ctx, w)
           | Inr result \<Rightarrow>
               (Inr result, this\<lparr> currentStepIndex := currentStepIndex this + 1 \<rparr>, ctx, w))
      | Inr False \<Rightarrow>
          (case invoke fn w of
             (Inl e, w') \<Rightarrow> (Inl e, this, ctx, w')
           | (Inr result, w') \<Rightarrow>
               (case save None this (Some result) ctx of
                  (Inl e, ctx') \<Rightarrow> (Inl e, this, ctx', w')
                | (Inr u, ctx') \<Rightarrow>
                    (Inr result, this\<lparr> currentStepIndex := currentStepIndex this + 1 \<rparr>,
                     ctx', w'))))"

text \<open>
  A value returned by \<open>step\<close> is the very object held in the stored list, so a run
  method that changes an object it got from one of its steps changes the stored step
  result: the result at an index below the cursor, when it is an object or an array,
  is replaced by what the change makes of it.
\<close>

definition mutateStepResult ::
  "computation \<Rightarrow> nat \<Rightarrow> (jsval \<Rightarrow> jsval) \<Rightarrow> ('w, 'b) pc_context \<Rightarrow> ('w, 'b) pc_context" where
  "mutateStepResult this i change ctx =
     (case computations (recoveryData ctx) of
        None \<Rightarrow> ctx
      | Some obj \<Rightarrow>
          (case obj (constructor_name this) of
             None \<Rightarrow> ctx
           | Some xs \<Rightarrow>
               (if i < currentStepIndex this \<and> i < length xs
                   \<and> (case xs ! i of JObj kvs \<Rightarrow> True | JArr ys \<Rightarrow> True | _ \<Rightarrow> False)
                then ctx\<lparr> recoveryData := (recoveryData ctx)
                       \<lparr> computations := Some (obj(constructor_name this \<mapsto> xs[i := change (xs ! i)])) \<rparr> \<rparr>
                else ctx)))"

text \<open>
  The \<open>run\<close> method of a subclass is a program over the instance: it returns, throws,
  calls \<open>this.step(fn)\<close> and goes on with what the step gives back or throws (so a
  \<open>try\<close> around a step is expressible), reads \<open>this.hasRecoveryData\<close>, or changes
  an object it got from a step. The callback \<open>fn\<close> acts on the external world and
  returns a value or throws. Apart from such changes, the run method reaches the
  context through \<open>step\<close> only.
\<close>

datatype 'w prog =
    Return jsval
  | Throw thrown
  | Step "'w \<Rightarrow> (thrown + jsval) \<times> 'w" "thrown + jsval \<Rightarrow> 'w prog"
  | GetHasRecoveryData "bool \<Rightarrow> 'w prog"
  | Mutate nat "jsval \<Rightarrow> jsval" "'w prog"

primrec exec ::
  "'w prog \<Rightarrow> computation \<Rightarrow> ('w, 'b) pc_context \<Rightarrow> ('w, 'b) world
     \<Rightarrow> (thrown + jsval) \<times> computation \<times> ('w, 'b) pc_context \<times> ('w, 'b) world" where
  "exec (Return v) this ctx w = (Inr v, this, ctx, w)"
| "exec (Throw e) this ctx w = (Inl e, this, ctx, w)"
| "exec (Step fn k) this ctx w =
     (case step fn this ctx w of (r, this', ctx', w') \<Rightarrow> exec (k r) this' ctx' w')"
| "exec (GetHasRecoveryData k) this ctx w = exec (k (hasRecoveryDataFlag this)) this ctx w"
| "exec (Mutate i change p) this ctx w = exec p this (mutateStepResult this i change ctx) w"

text \<open>
  A class: the identifier of its declaration, a \<open>static name\<close> if it declares one, and
  its \<open>run\<close> method. \<open>C.name\<close>, which is what \<open>computation.constructor.name\<close> reads, is
  the static property when declared and the identifier otherwise.
\<close>

record 'w computation_class =
  class_identifier :: string
  static_name :: "string option"
  run_method :: "jsval \<Rightarrow> 'w prog"

definition class_name :: "'w computation_class \<Rightarrow> string" where
  "class_name C = (case static_name C of None \<Rightarrow> class_identifier C | Some n \<Rightarrow> n)"

text \<open>
  An element of the list given to \<open>run\<close>: a class, or an object that is already an
  instance of one.
\<close>

datatype 'w runnable = Class "'w computation_class" | Instance "'w computation_class"

definition new_computation :: "'w computation_class \<Rightarrow> computation" where
  "new_computation C =
     \<lparr> constructor_name = class_name C, hasRecoveryDataFlag = False, currentStepIndex = 0 \<rparr>"

section \<open>The run loop\<close>

text \<open>
  \<open>new Computation(this)\<close> is outside the \<open>try\<close> and throws for an element that is no
  constructor. In the \<open>catch\<close> block, \<open>save\<close> records the caught value, the flush is
  awaited, and \<open>throw new ComputationFailedError(...)\<close> ends the call with the wrapped
  error, or with the TypeError of the constructor.
\<close>

fun run_loop ::
  "bool \<Rightarrow> 'w runnable list \<Rightarrow> jsval \<Rightarrow> ('w, 'b) pc_context \<Rightarrow> ('w, 'b) world
     \<Rightarrow> (thrown + unit) \<times> ('w, 'b) pc_context \<times> ('w, 'b) world" where
  "run_loop recovered [] computationValue ctx w = (Inr (), ctx, w)"
| "run_loop recovered (Instance obj # rest) computationValue ctx w =
     (Inl (TypeError ''Computation is not a constructor''), ctx, w)"
| "run_loop recovered (Class C # rest) computationValue ctx w =
     (let c0 = new_computation C;
          c = (if recovered then markRecovered c0 else c0)
      in (case exec (run_method C computationValue) c ctx w of
            (Inr v, c', ctx', w') \<Rightarrow> run_loop recovered rest v (pushResult c' v ctx') w'
          | (Inl err, c', ctx', w') \<Rightarrow>
              (case save (Some err) c' None ctx' of
                 (Inl e, ctx'') \<Rightarrow> (Inl e, ctx'', w')
               | (Inr u, ctx'') \<Rightarrow>
                   (case flushRecoveryData ctx'' w' of
                      (Inl fault, w'') \<Rightarrow> (Inl fault, ctx'', w'')
                    | (Inr u', w'') \<Rightarrow>
                        (case ComputationFailedError err c' of
                           Inl e \<Rightarrow> (Inl e, ctx'', w'')
                         | Inr wrapped \<Rightarrow> (Inl wrapped, ctx'', w''))))))"

definition run ::
  "(jsval \<Rightarrow> jsval \<Rightarrow> bool) \<Rightarrow> ('w, 'b) pc_context \<Rightarrow> 'w runnable list \<Rightarrow> jsval
     \<Rightarrow> ('w, 'b) world \<Rightarrow> (thrown + run_result option) \<times> ('w, 'b) pc_context \<times> ('w, 'b) world" where
  "run fastDeepEqual ctx computationClasses input w =
     (case maybeRecover fastDeepEqual ctx w of
        (Inl e, ctx1, w1) \<Rightarrow> (Inl e, ctx1, w1)
      | (Inr recovered, ctx1, w1) \<Rightarrow>
          (case run_loop recovered computationClasses input ctx1 w1 of
             (Inl e, ctx2, w2) \<Rightarrow> (Inl e, ctx2, w2)
           | (Inr u, ctx2, w2) \<Rightarrow> (Inr (getLastResult ctx2), ctx2, w2)))"

section \<open>Observations used to state the properties\<close>

text \<open>
  The list a snapshot has of its own for a computation's name (empty when there is
  none), and the value a step at a given cursor is answered with from the snapshot,
  if any: this is what \<open>hasRecoveryData\<close> and \<open>getStepValue\<close> compute together.
\<close>

definition stepDataOf :: "('w, 'b) pc_context \<Rightarrow> computation \<Rightarrow> jsval list" where
  "stepDataOf ctx c =
     (case computations (recoveryData ctx) of
        None \<Rightarrow> []
      | Some obj \<Rightarrow> (case obj (constructor_name c) of None \<Rightarrow> [] | Some xs \<Rightarrow> xs))"

definition stepValueAt :: "(string \<rightharpoonup> jsval list) \<Rightarrow> string \<Rightarrow> nat \<Rightarrow> jsval option" where
  "stepValueAt obj key i =
     (case getProperty obj key of
        None \<Rightarrow> None
      | Some (StepList xs) \<Rightarrow> (if i < length xs then Some (xs ! i) else None)
      | Some (Inherited (Some n)) \<Rightarrow> (if i < n then Some JUndefined else None)
      | Some (Inherited None) \<Rightarrow> Some JUndefined)"


definition cursor_ok :: "computation \<Rightarrow> ('w, 'b) pc_context \<Rightarrow> bool" where
  "cursor_ok c ctx =
     (case computations (recoveryData ctx) of
        None \<Rightarrow> True
      | Some obj \<Rightarrow>
          (case obj (constructor_name c) of
             None \<Rightarrow> constructor_name c \<in> dom objectPrototype \<or> currentStepIndex c = 0
           | Some xs \<Rightarrow> currentStepIndex c \<le> length xs))"



text \<open>The instance the loop creates for a class: \<open>new Computation(this)\<close>, marked when recovered.\<close>

definition instance_of :: "bool \<Rightarrow> 'w computation_class \<Rightarrow> computation" where
  "instance_of recovered C =
     (if recovered then markRecovered (new_computation C) else new_computation C)"

text \<open>
  The first computation of the list whose \<open>run\<close> method raises, with what it raised and
  the state at that moment (\<open>None\<close> when the loop ends without any computation raising),
  and what the \<open>catch\<close> block of \<open>run\<close> does from there.
\<close>

fun failing ::
  "bool \<Rightarrow> 'w runnable list \<Rightarrow> jsval \<Rightarrow> ('w, 'b) pc_context \<Rightarrow> ('w, 'b) world
     \<Rightarrow> ('w computation_class \<times> thrown \<times> computation \<times> ('w, 'b) pc_context \<times> ('w, 'b) world) option" where
  "failing recovered [] computationValue ctx w = None"
| "failing recovered (Instance obj # rest) computationValue ctx w = None"
| "failing recovered (Class C # rest) computationValue ctx w =
     (let c0 = new_computation C;
          c = (if recovered then markRecovered c0 else c0)
      in (case exec (run_method C computationValue) c ctx w of
            (Inr v, c', ctx', w') \<Rightarrow> failing recovered rest v (pushResult c' v ctx') w'
          | (Inl err, c', ctx', w') \<Rightarrow> Some (C, err, c', ctx', w')))"

definition on_failure ::
  "thrown \<Rightarrow> computation \<Rightarrow> ('w, 'b) pc_context \<Rightarrow> ('w, 'b) world
     \<Rightarrow> (thrown + unit) \<times> ('w, 'b) pc_context \<times> ('w, 'b) world" where
  "on_failure err c ctx w =
     (case save (Some err) c None ctx of
        (Inl e, ctx'') \<Rightarrow> (Inl e, ctx'', w)
      | (Inr u, ctx'') \<Rightarrow>
          (case flushRecoveryData ctx'' w of
             (Inl fault, w'') \<Rightarrow> (Inl fault, ctx'', w'')
           | (Inr u', w'') \<Rightarrow>
               (case ComputationFailedError err c of
                  Inl e \<Rightarrow> (Inl e, ctx'', w'')
                | Inr wrapped \<Rightarrow> (Inl wrapped, ctx'', w''))))"

text \<open>Kinds of events of the trace.\<close>

fun is_exists :: "'b event \<Rightarrow> bool" where
  "is_exists (Exists loc) = True" | "is_exists e = False"

fun is_read :: "'b event \<Rightarrow> bool" where
  "is_read (Read loc) = True" | "is_read e = False"

fun is_write :: "'b event \<Rightarrow> bool" where
  "is_write (Write loc data) = True" | "is_write e = False"

fun is_call :: "'b event \<Rightarrow> bool" where
  "is_call Call = True" | "is_call e = False"

section \<open>Default capabilities and the computations of the test suite\<close>

text \<open>
  The default transport of \<open>PersistentComputationContextOptions\<close> over a file system
  given as a map from file names to contents (\<open>readFileSync\<close> throws on a missing file,
  \<open>writeFileSync\<close> replaces the file), a transformer that round-trips, and the
  computations of \<open>tests/utils.js\<close>.
\<close>

definition defaultTransport :: "(string \<rightharpoonup> 'b, 'b) transport" where
  "defaultTransport =
     \<lparr> t_read = (\<lambda>fileName files.
          (case files fileName of
             None \<Rightarrow> (Inl (Exn ''Error'' ''ENOENT: no such file or directory'' None None), files)
           | Some data \<Rightarrow> (Inr data, files))),
       t_write = (\<lambda>fileName data files. (Inr (), files(fileName \<mapsto> data))),
       t_exists = (\<lambda>fileName files. (Inr (files fileName \<noteq> None), files)) \<rparr>"

definition cloneTransformer :: "(snapshot option) transformer" where
  "cloneTransformer = \<lparr> serialize = (\<lambda>v. Inr (Some v)), deserialize = (\<lambda>data. Inr data) \<rparr>"

definition exampleOptions :: "(string \<rightharpoonup> snapshot option, snapshot option) options" where
  "exampleOptions =
     \<lparr> fromScratch = False, recoveryDataLocation = ''.recovery'',
       transport = defaultTransport, transformer = cloneTransformer \<rparr>"

definition emptyWorld :: "(string \<rightharpoonup> snapshot option, snapshot option) world" where
  "emptyWorld = \<lparr> external = Map.empty, trace = [] \<rparr>"

definition worldWith :: "snapshot option \<Rightarrow> (string \<rightharpoonup> snapshot option, snapshot option) world" where
  "worldWith stored = \<lparr> external = [''.recovery'' \<mapsto> stored], trace = [] \<rparr>"

definition OneStepComputation :: "'w computation_class" where
  "OneStepComputation =
     \<lparr> class_identifier = ''OneStepComputation'', static_name = None,
       run_method = (\<lambda>input.
         Step (\<lambda>x. (Inr (JObj [(''data'', JNum 42)]), x))
              (\<lambda>r. case r of Inl e \<Rightarrow> Throw e | Inr data \<Rightarrow> Return data)) \<rparr>"

definition MultiStepComputation :: "'w computation_class" where
  "MultiStepComputation =
     \<lparr> class_identifier = ''MultiStepComputation'', static_name = None,
       run_method = (\<lambda>input.
         Step (\<lambda>x. (Inr (JObj [(''data'', JStr ''step one'')]), x))
           (\<lambda>r1. case r1 of
              Inl e \<Rightarrow> Throw e
            | Inr stepOneData \<Rightarrow>
                Step (\<lambda>x. (Inr (JObj [(''data'', JStr ''step two'')]), x))
                  (\<lambda>r2. case r2 of
                     Inl e \<Rightarrow> Throw e
                   | Inr stepTwoData \<Rightarrow>
                       Return (JObj [(''stepOneData'', stepOneData),
                                     (''stepTwoData'', stepTwoData)])))) \<rparr>"

definition ThrowingComputation :: "'w computation_class" where
  "ThrowingComputation =
     \<lparr> class_identifier = ''ThrowingComputation'', static_name = None,
       run_method = (\<lambda>input. Throw (BaseComputationError ''ComputationErrorMessage'')) \<rparr>"

definition exampleSnapshot :: snapshot where
  "exampleSnapshot =
     \<lparr> dependencies = JObj [], computations = Some [''OneStepComputation'' \<mapsto> [JBool False]],
       error = None \<rparr>"

definition EIO :: thrown where
  "EIO = Exn ''Error'' ''EIO: i/o error'' None None"

definition DataCloneError :: thrown where
  "DataCloneError = Exn ''DataCloneError'' ''value could not be cloned'' None None"

text \<open>
  A transport and a transformer whose chosen methods throw, as a mock would; the methods
  not chosen behave as the defaults above.
\<close>

definition faultyTransport :: "bool \<Rightarrow> bool \<Rightarrow> bool \<Rightarrow> (string \<rightharpoonup> 'b, 'b) transport" where
  "faultyTransport existsThrows readThrows writeThrows =
     \<lparr> t_read = (\<lambda>fileName files.
          if readThrows then (Inl EIO, files) else t_read defaultTransport fileName files),
       t_write = (\<lambda>fileName data files.
          if writeThrows then (Inl EIO, files) else t_write defaultTransport fileName data files),
       t_exists = (\<lambda>fileName files.
          if existsThrows then (Inl EIO, files) else t_exists defaultTransport fileName files) \<rparr>"

definition faultyTransformer :: "bool \<Rightarrow> bool \<Rightarrow> (snapshot option) transformer" where
  "faultyTransformer serializeThrows deserializeThrows =
     \<lparr> serialize = (\<lambda>v. if serializeThrows then Inl DataCloneError else Inr (Some v)),
       deserialize = (\<lambda>data. if deserializeThrows then Inl DataCloneError else Inr data) \<rparr>"

definition replayContext :: "(string \<rightharpoonup> snapshot option, snapshot option) pc_context" where
  "replayContext =
     (PersistentComputationContext exampleOptions [])\<lparr> recoveryData := exampleSnapshot \<rparr>"

definition writeFaultContext :: "(string \<rightharpoonup> snapshot option, snapshot option) pc_context" where
  "writeFaultContext =
     PersistentComputationContext (exampleOptions\<lparr> transport := faultyTransport False False True \<rparr>) []"

definition serializeFaultContext :: "(string \<rightharpoonup> snapshot option, snapshot option) pc_context" where
  "serializeFaultContext =
     PersistentComputationContext (exampleOptions\<lparr> transformer := faultyTransformer True False \<rparr>) []"

text \<open>
  Two recorded runs on a fresh context over an empty file system, and the file system
  after an explicit flush that follows the second of them.
\<close>

definition firstRun ::
  "(thrown + run_result option) \<times> (string \<rightharpoonup> snapshot option, snapshot option) pc_context
     \<times> (string \<rightharpoonup> snapshot option, snapshot option) world" where
  "firstRun =
     run (=) (PersistentComputationContext exampleOptions []) [Class OneStepComputation]
       JUndefined emptyWorld"



text \<open>
  The object \<open>{ dependencies: {} }\<close>, which the default \<open>read\<close> of the test suite's
  \<open>mockTransport\<close> encodes, as recovery data of a context; a new instance of
  \<open>OneStepComputation\<close>, and one of a class called \<open>hasOwnProperty\<close>.
\<close>

definition partialContext :: "(string \<rightharpoonup> snapshot option, snapshot option) pc_context" where
  "partialContext =
     (PersistentComputationContext exampleOptions [])
       \<lparr> recoveryData := \<lparr> dependencies = JObj [], computations = None, error = None \<rparr> \<rparr>"

definition oneStepInstance :: computation where
  "oneStepInstance =
     \<lparr> constructor_name = ''OneStepComputation'', hasRecoveryDataFlag = False,
       currentStepIndex = 0 \<rparr>"

definition inheritedNameInstance :: computation where
  "inheritedNameInstance =
     \<lparr> constructor_name = ''hasOwnProperty'', hasRecoveryDataFlag = False, currentStepIndex = 0 \<rparr>"

text \<open>
  Run methods that throw a falsy value: \<open>await Promise.reject()\<close> throws \<open>undefined\<close>,
  and \<open>throw 0\<close>.
\<close>

definition RejectingComputation :: "'w computation_class" where
  "RejectingComputation =
     \<lparr> class_identifier = ''RejectingComputation'', static_name = None,
       run_method = (\<lambda>input. Throw (Value JUndefined)) \<rparr>"

definition ThrowingZeroComputation :: "'w computation_class" where
  "ThrowingZeroComputation =
     \<lparr> class_identifier = ''ThrowingZeroComputation'', static_name = None,
       run_method = (\<lambda>input. Throw (Value (JNum 0))) \<rparr>"








text \<open>
  The scenario of a replay: a first run of a list by a new context over an empty file
  system, an explicit flush of that context, and a second run of the list by another
  new context over the file system the flush left. \<open>unflushedRun\<close> is the second run
  when nothing was flushed in between.
\<close>

definition firstRunOf ::
  "(string \<rightharpoonup> snapshot option) runnable list \<Rightarrow> jsval
     \<Rightarrow> (thrown + run_result option) \<times> (string \<rightharpoonup> snapshot option, snapshot option) pc_context
        \<times> (string \<rightharpoonup> snapshot option, snapshot option) world" where
  "firstRunOf cs input = run (=) (PersistentComputationContext exampleOptions []) cs input emptyWorld"

definition flushedAfter ::
  "(string \<rightharpoonup> snapshot option) runnable list \<Rightarrow> jsval
     \<Rightarrow> (string \<rightharpoonup> snapshot option, snapshot option) world" where
  "flushedAfter cs input =
     (snd (flushRecoveryData (fst (snd (firstRunOf cs input))) (snd (snd (firstRunOf cs input)))))
       \<lparr> trace := [] \<rparr>"

definition secondRunOf ::
  "(string \<rightharpoonup> snapshot option) runnable list \<Rightarrow> jsval
     \<Rightarrow> (thrown + run_result option) \<times> (string \<rightharpoonup> snapshot option, snapshot option) pc_context
        \<times> (string \<rightharpoonup> snapshot option, snapshot option) world" where
  "secondRunOf cs input =
     run (=) (PersistentComputationContext exampleOptions []) cs input (flushedAfter cs input)"

definition unflushedRun ::
  "(string \<rightharpoonup> snapshot option) runnable list \<Rightarrow> jsval
     \<Rightarrow> (thrown + run_result option) \<times> (string \<rightharpoonup> snapshot option, snapshot option) pc_context
        \<times> (string \<rightharpoonup> snapshot option, snapshot option) world" where
  "unflushedRun cs input =
     run (=) (PersistentComputationContext exampleOptions []) cs input
       ((snd (snd (firstRunOf cs input)))\<lparr> trace := [] \<rparr>)"

section \<open>The step boundary and the run method\<close>




lemma step_replay:
  assumes "computations (recoveryData ctx) = Some obj"
    and "stepValueAt obj (constructor_name c) (currentStepIndex c) = Some v"
  shows "step fn c ctx w = (Inr v, c\<lparr> currentStepIndex := currentStepIndex c + 1 \<rparr>, ctx, w)"
  using assms
  by (auto simp add: step_def hasRecoveryData_def getStepValue_def stepValueAt_def
      split: option.splits stepData.splits if_splits)

lemma save_error_only:
  "save (Some err) c None ctx =
     (Inr (), if truthy_thrown err
              then ctx\<lparr> recoveryData := (recoveryData ctx)\<lparr> error := Some err \<rparr> \<rparr> else ctx)"
  by (simp add: save_def)

lemma save_frame:
  "options (snd (save err c result ctx)) = options ctx
   \<and> results (snd (save err c result ctx)) = results ctx
   \<and> dependencies (recoveryData (snd (save err c result ctx))) = dependencies (recoveryData ctx)"
  by (simp add: save_def Let_def split: option.splits stepData.splits)

lemma save_result_frame:
  "error (recoveryData (snd (save None c result ctx))) = error (recoveryData ctx)"
  by (simp add: save_def Let_def split: option.splits stepData.splits)


lemma step_frame:
  assumes "step fn c ctx w = (r, c', ctx', w')"
  shows "constructor_name c' = constructor_name c \<and> options ctx' = options ctx
         \<and> results ctx' = results ctx \<and> hasRecoveryDataFlag c' = hasRecoveryDataFlag c
         \<and> dependencies (recoveryData ctx') = dependencies (recoveryData ctx)
         \<and> error (recoveryData ctx') = error (recoveryData ctx)"
proof -
  have "ctx' = ctx \<or> (\<exists>v. ctx' = snd (save None c (Some v) ctx))"
    using assms
    by (auto simp add: step_def split: sum.splits bool.splits prod.splits) (metis snd_conv)+
  moreover have "constructor_name c' = constructor_name c
      \<and> hasRecoveryDataFlag c' = hasRecoveryDataFlag c"
    using assms
    by (auto simp add: step_def split: sum.splits bool.splits prod.splits)
  ultimately show ?thesis using save_frame save_result_frame by metis
qed


lemma step_trace:
  assumes "step fn c ctx w = (r, c', ctx', w')"
  shows "trace w' = trace w \<or> trace w' = trace w @ [Call]"
  using assms
  by (auto simp add: step_def invoke_def Let_def split: sum.splits bool.splits prod.splits)

lemma step_throws:
  assumes "step fn c ctx w = (Inl e, c', ctx', w')"
  shows "c' = c \<and> computations (recoveryData ctx') = computations (recoveryData ctx)"
  using assms
  by (auto simp add: step_def save_def Let_def
      split: sum.splits bool.splits prod.splits option.splits stepData.splits)

lemma step_cursor:
  assumes "step fn c ctx w = (Inr v, c', ctx', w')" and "cursor_ok c ctx"
  shows "cursor_ok c' ctx' \<and> currentStepIndex c' = currentStepIndex c + 1
         \<and> (\<exists>obj'. computations (recoveryData ctx') = Some obj'
                \<and> stepValueAt obj' (constructor_name c) (currentStepIndex c) = Some v)"
  using assms
  by (auto simp add: step_def save_def Let_def cursor_ok_def hasRecoveryData_def
        getStepValue_def stepValueAt_def getProperty_def nth_append
      split: if_splits sum.splits bool.splits prod.splits option.splits stepData.splits)

text \<open>
  The cursor never runs ahead of the stored list: this holds for a new instance, and
  every step and every run method keep it.
\<close>

lemma step_cursor_ok:
  assumes "step fn c ctx w = (r, c', ctx', w')" and "cursor_ok c ctx"
  shows "cursor_ok c' ctx'"
proof (cases r)
  case (Inl e)
  with assms step_throws [of fn c ctx w e c' ctx' w'] show ?thesis
    by (simp add: cursor_ok_def)
next
  case (Inr v)
  with assms step_cursor [of fn c ctx w v c' ctx' w'] show ?thesis by simp
qed

lemma mutate_frame:
  "options (mutateStepResult c i change ctx) = options ctx
   \<and> results (mutateStepResult c i change ctx) = results ctx
   \<and> dependencies (recoveryData (mutateStepResult c i change ctx)) = dependencies (recoveryData ctx)
   \<and> error (recoveryData (mutateStepResult c i change ctx)) = error (recoveryData ctx)"
  by (simp add: mutateStepResult_def split: option.splits)

lemma mutate_cursor_ok:
  "cursor_ok c ctx \<Longrightarrow> cursor_ok c (mutateStepResult c i change ctx)"
  by (auto simp add: mutateStepResult_def cursor_ok_def split: option.splits)

lemma exec_frame:
  "exec p c ctx w = (r, c', ctx', w') \<Longrightarrow>
     constructor_name c' = constructor_name c \<and> options ctx' = options ctx
     \<and> results ctx' = results ctx \<and> hasRecoveryDataFlag c' = hasRecoveryDataFlag c
     \<and> dependencies (recoveryData ctx') = dependencies (recoveryData ctx)
     \<and> error (recoveryData ctx') = error (recoveryData ctx)"
proof (induction p arbitrary: c ctx w)
  case (Return v)
  then show ?case by simp
next
  case (Throw e)
  then show ?case by simp
next
  case (Step fn k)
  obtain r1 c1 ctx1 w1 where s: "step fn c ctx w = (r1, c1, ctx1, w1)"
    by (metis prod_cases4)
  note f = step_frame [OF s]
  from Step.prems s have "exec (k r1) c1 ctx1 w1 = (r, c', ctx', w')" by simp
  from Step.IH [OF _ this] f show ?case by simp
next
  case (GetHasRecoveryData k)
  then have "exec (k (hasRecoveryDataFlag c)) c ctx w = (r, c', ctx', w')" by simp
  from GetHasRecoveryData.IH [OF _ this] show ?case by simp
next
  case (Mutate i change p)
  then have "exec p c (mutateStepResult c i change ctx) w = (r, c', ctx', w')" by simp
  from Mutate.IH [OF this] mutate_frame [of c i change ctx] show ?case by simp
qed

lemma exec_trace:
  "exec p c ctx w = (r, c', ctx', w') \<Longrightarrow> \<exists>n. trace w' = trace w @ replicate n Call"
proof (induction p arbitrary: c ctx w)
  case (Return v)
  then show ?case by simp
next
  case (Throw e)
  then show ?case by simp
next
  case (Step fn k)
  obtain r1 c1 ctx1 w1 where s: "step fn c ctx w = (r1, c1, ctx1, w1)"
    by (metis prod_cases4)
  from step_trace [OF s] obtain m where m: "trace w1 = trace w @ replicate m Call"
    by (metis append_Nil2 replicate_0 replicate.simps(2))
  from Step.prems s have "exec (k r1) c1 ctx1 w1 = (r, c', ctx', w')" by simp
  from Step.IH [OF _ this] obtain n where "trace w' = trace w1 @ replicate n Call" by auto
  with m have "trace w' = trace w @ replicate (m + n) Call"
    by (simp add: replicate_add)
  then show ?case by blast
next
  case (GetHasRecoveryData k)
  then have "exec (k (hasRecoveryDataFlag c)) c ctx w = (r, c', ctx', w')" by simp
  from GetHasRecoveryData.IH [OF _ this] show ?case by simp
next
  case (Mutate i change p)
  then have "exec p c (mutateStepResult c i change ctx) w = (r, c', ctx', w')" by simp
  from Mutate.IH [OF this] show ?case by simp
qed

lemma exec_cursor_ok:
  "exec p c ctx w = (r, c', ctx', w') \<Longrightarrow> cursor_ok c ctx \<Longrightarrow> cursor_ok c' ctx'"
proof (induction p arbitrary: c ctx w)
  case (Return v)
  then show ?case by simp
next
  case (Throw e)
  then show ?case by simp
next
  case (Step fn k)
  obtain r1 c1 ctx1 w1 where s: "step fn c ctx w = (r1, c1, ctx1, w1)"
    by (metis prod_cases4)
  note ok = step_cursor_ok [OF s Step.prems(2)]
  from Step.prems s have "exec (k r1) c1 ctx1 w1 = (r, c', ctx', w')" by simp
  from Step.IH [OF _ this ok] show ?case by simp
next
  case (GetHasRecoveryData k)
  then have "exec (k (hasRecoveryDataFlag c)) c ctx w = (r, c', ctx', w')" by simp
  from GetHasRecoveryData.IH [OF _ this GetHasRecoveryData.prems(2)] show ?case by simp
next
  case (Mutate i change p)
  then have "exec p c (mutateStepResult c i change ctx) w = (r, c', ctx', w')" by simp
  from Mutate.IH [OF this mutate_cursor_ok [OF Mutate.prems(2)]] show ?case .
qed








section \<open>The run loop\<close>

lemma instance_of_simps:
  "constructor_name (instance_of recovered C) = class_name C"
  "currentStepIndex (instance_of recovered C) = 0"
  by (simp_all add: instance_of_def markRecovered_def new_computation_def)


lemma run_loop_Class_Inr:
  "exec (run_method C v) (instance_of recovered C) ctx w = (Inr b, c', ctx', w') \<Longrightarrow>
   run_loop recovered (Class C # rest) v ctx w = run_loop recovered rest b (pushResult c' b ctx') w'"
  by (simp add: instance_of_def Let_def split: prod.splits sum.splits)

lemma run_loop_Class_Inl:
  "exec (run_method C v) (instance_of recovered C) ctx w = (Inl err, c', ctx', w') \<Longrightarrow>
   run_loop recovered (Class C # rest) v ctx w = on_failure err c' ctx' w'"
  by (simp add: instance_of_def on_failure_def Let_def split: prod.splits sum.splits)

lemma failing_Class_Inr:
  "exec (run_method C v) (instance_of recovered C) ctx w = (Inr b, c', ctx', w') \<Longrightarrow>
   failing recovered (Class C # rest) v ctx w = failing recovered rest b (pushResult c' b ctx') w'"
  by (simp add: instance_of_def Let_def split: prod.splits sum.splits)

lemma failing_Class_Inl:
  "exec (run_method C v) (instance_of recovered C) ctx w = (Inl err, c', ctx', w') \<Longrightarrow>
   failing recovered (Class C # rest) v ctx w = Some (C, err, c', ctx', w')"
  by (simp add: instance_of_def Let_def split: prod.splits sum.splits)

lemma run_loop_failing:
  "failing recovered cs v ctx w = Some (C, err, c, ctx2, w2) \<Longrightarrow>
   run_loop recovered cs v ctx w = on_failure err c ctx2 w2"
proof (induction cs arbitrary: v ctx w)
  case Nil
  then show ?case by simp
next
  case (Cons a rest)
  show ?case
  proof (cases a)
    case (Instance obj)
    with Cons.prems show ?thesis by simp
  next
    case (Class D)
    obtain r c' ctx' w' where
      e: "exec (run_method D v) (instance_of recovered D) ctx w = (r, c', ctx', w')"
      by (metis prod_cases4)
    show ?thesis
    proof (cases r)
      case (Inl x)
      with e Class Cons.prems show ?thesis
        by (simp add: failing_Class_Inl run_loop_Class_Inl del: failing.simps run_loop.simps)
    next
      case (Inr b)
      with e Class Cons.prems Cons.IH show ?thesis
        by (simp add: failing_Class_Inr run_loop_Class_Inr del: failing.simps run_loop.simps)
    qed
  qed
qed

lemma failing_facts:
  "failing recovered cs v ctx w = Some (C, err, c, ctx2, w2) \<Longrightarrow>
   (\<exists>n. trace w2 = trace w @ replicate n Call) \<and> options ctx2 = options ctx
   \<and> constructor_name c = class_name C \<and> Class C \<in> set cs
   \<and> (\<exists>rs. results ctx2 = results ctx @ rs)"
proof (induction cs arbitrary: v ctx w)
  case Nil
  then show ?case by simp
next
  case (Cons a rest)
  show ?case
  proof (cases a)
    case (Instance obj)
    with Cons.prems show ?thesis by simp
  next
    case (Class D)
    obtain r c' ctx' w' where
      e: "exec (run_method D v) (instance_of recovered D) ctx w = (r, c', ctx', w')"
      by (metis prod_cases4)
    note fr = exec_frame [OF e]
    from exec_trace [OF e] obtain m where m: "trace w' = trace w @ replicate m Call" by blast
    show ?thesis
    proof (cases r)
      case (Inl x)
      with e Class Cons.prems fr m show ?thesis
        by (auto simp add: failing_Class_Inl instance_of_simps simp del: failing.simps run_loop.simps)
    next
      case (Inr b)
      with e Class Cons.prems
      have f: "failing recovered rest b (pushResult c' b ctx') w' = Some (C, err, c, ctx2, w2)"
        by (simp add: failing_Class_Inr del: failing.simps run_loop.simps)
      from Cons.IH [OF f] obtain n rs where "trace w2 = trace w' @ replicate n Call"
        and "options ctx2 = options (pushResult c' b ctx')"
        and "constructor_name c = class_name C" and "Class C \<in> set rest"
        and "results ctx2 = results (pushResult c' b ctx') @ rs" by blast
      with m fr Class have "trace w2 = trace w @ replicate (m + n) Call"
        and "options ctx2 = options ctx" and "constructor_name c = class_name C"
        and "Class C \<in> set (a # rest)"
        and "results ctx2 = results ctx @ (\<lparr> result_name = constructor_name c', result_value = b \<rparr> # rs)"
        by (simp_all add: pushResult_def replicate_add)
      then show ?thesis by blast
    qed
  qed
qed



lemma run_loop_no_failing:
  "failing recovered cs v ctx w = None \<Longrightarrow> run_loop recovered cs v ctx w = (r, ctx1, w1) \<Longrightarrow>
   (\<exists>n. trace w1 = trace w @ replicate n Call) \<and> options ctx1 = options ctx
   \<and> (\<exists>rs. results ctx1 = results ctx @ rs)
   \<and> dependencies (recoveryData ctx1) = dependencies (recoveryData ctx)
   \<and> error (recoveryData ctx1) = error (recoveryData ctx)"
proof (induction cs arbitrary: v ctx w)
  case Nil
  then show ?case by auto
next
  case (Cons a rest)
  show ?case
  proof (cases a)
    case (Instance obj)
    with Cons.prems show ?thesis by auto
  next
    case (Class D)
    obtain r' c' ctx' w' where
      e: "exec (run_method D v) (instance_of recovered D) ctx w = (r', c', ctx', w')"
      by (metis prod_cases4)
    note fr = exec_frame [OF e]
    from exec_trace [OF e] obtain m where m: "trace w' = trace w @ replicate m Call" by blast
    show ?thesis
    proof (cases r')
      case (Inl x)
      with e Class Cons.prems show ?thesis by (simp add: failing_Class_Inl del: failing.simps run_loop.simps)
    next
      case (Inr b)
      with e Class Cons.prems
      have f: "failing recovered rest b (pushResult c' b ctx') w' = None"
        and l: "run_loop recovered rest b (pushResult c' b ctx') w' = (r, ctx1, w1)"
        by (simp_all add: failing_Class_Inr run_loop_Class_Inr del: failing.simps run_loop.simps)
      from Cons.IH [OF f l] obtain n rs where "trace w1 = trace w' @ replicate n Call"
        and "options ctx1 = options (pushResult c' b ctx')"
        and "results ctx1 = results (pushResult c' b ctx') @ rs"
        and "dependencies (recoveryData ctx1) = dependencies (recoveryData (pushResult c' b ctx'))"
        and "error (recoveryData ctx1) = error (recoveryData (pushResult c' b ctx'))"
        by blast
      with m fr have "trace w1 = trace w @ replicate (m + n) Call"
        and "options ctx1 = options ctx"
        and "results ctx1 = results ctx @ (\<lparr> result_name = constructor_name c', result_value = b \<rparr> # rs)"
        and "dependencies (recoveryData ctx1) = dependencies (recoveryData ctx)"
        and "error (recoveryData ctx1) = error (recoveryData ctx)"
        by (auto simp add: pushResult_def replicate_add)
      then show ?thesis by blast
    qed
  qed
qed

lemma on_failure_Inl: "\<exists>e. fst (on_failure err c ctx w) = Inl e"
  by (auto simp add: on_failure_def save_error_only split: prod.splits sum.splits)

lemma run_loop_ok_no_failing:
  assumes r: "run_loop recovered cs v ctx w = (Inr u, ctx1, w1)"
  shows "failing recovered cs v ctx w = None"
proof (cases "failing recovered cs v ctx w")
  case None
  then show ?thesis by simp
next
  case (Some a)
  obtain C err c ctx2 w2 where "a = (C, err, c, ctx2, w2)" by (metis prod_cases5)
  with Some have "run_loop recovered cs v ctx w = on_failure err c ctx2 w2"
    by (simp add: run_loop_failing)
  with r on_failure_Inl [of err c ctx2 w2] show ?thesis by auto
qed



section \<open>Recovery, the failure path and the events of a run\<close>

lemma transport_exists_trace:
  "transport_exists ctx w = (r, w1) \<Longrightarrow>
   trace w1 = trace w @ [Exists (recoveryDataLocation (options ctx))]"
  by (auto simp add: transport_exists_def Let_def split: prod.splits)

lemma transport_read_trace:
  "transport_read ctx w = (r, w1) \<Longrightarrow>
   trace w1 = trace w @ [Read (recoveryDataLocation (options ctx))]"
  by (auto simp add: transport_read_def Let_def split: prod.splits)

lemma transport_write_trace:
  "transport_write ctx data w = (r, w1) \<Longrightarrow>
   trace w1 = trace w @ [Write (recoveryDataLocation (options ctx)) data]"
  by (auto simp add: transport_write_def Let_def split: prod.splits)

lemma maybeRecover_fromScratch:
  "fromScratch (options ctx) \<Longrightarrow> maybeRecover eq ctx w = (Inr False, ctx, w)"
  by (simp add: maybeRecover_def)

lemma maybeRecover_frame:
  assumes "maybeRecover eq ctx w = (r, ctx1, w1)"
  shows "options ctx1 = options ctx \<and> results ctx1 = results ctx"
  using assms
  by (auto simp add: maybeRecover_def split: if_splits prod.splits sum.splits option.splits)

lemma maybeRecover_trace:
  assumes "maybeRecover eq ctx w = (r, ctx1, w1)"
  shows "\<exists>evs. trace w1 = trace w @ evs \<and> filter is_write evs = [] \<and> filter is_call evs = []
           \<and> length (filter is_read evs) \<le> 1 \<and> length (filter is_exists evs) \<le> 1"
proof (cases "fromScratch (options ctx)")
  case True
  with assms show ?thesis by (simp add: maybeRecover_def)
next
  case False
  obtain r1 w2 where ex: "transport_exists ctx w = (r1, w2)" by (metis prod.exhaust)
  note t1 = transport_exists_trace [OF ex]
  have one: "trace w1 = trace w2 \<Longrightarrow> ?thesis"
    using t1 by simp
  obtain r2 w3 where rd: "transport_read ctx w2 = (r2, w3)" by (metis prod.exhaust)
  note t2 = transport_read_trace [OF rd]
  have two: "trace w1 = trace w3 \<Longrightarrow> ?thesis"
    using t1 t2 by simp
  from assms False ex rd have "trace w1 = trace w2 \<or> trace w1 = trace w3"
    by (auto simp add: maybeRecover_def split: if_splits sum.splits option.splits)
  with one two show ?thesis by blast
qed

lemma on_failure_unfold:
  "on_failure err c ctx w =
     (case flushRecoveryData (snd (save (Some err) c None ctx)) w of
        (Inl fault, w'') \<Rightarrow> (Inl fault, snd (save (Some err) c None ctx), w'')
      | (Inr u', w'') \<Rightarrow>
          (case ComputationFailedError err c of
             Inl e \<Rightarrow> (Inl e, snd (save (Some err) c None ctx), w'')
           | Inr wrapped \<Rightarrow> (Inl wrapped, snd (save (Some err) c None ctx), w'')))"
proof -
  obtain u ctx'' where sv: "save (Some err) c None ctx = (u, ctx'')" by (metis prod.exhaust)
  with save_error_only [of err c ctx] have "u = Inr ()" by simp
  with sv show ?thesis by (simp add: on_failure_def split: prod.splits sum.splits)
qed

lemma on_failure_cases:
  assumes "on_failure err c ctx w = (r, ctx1, w1)"
  shows "ctx1 = snd (save (Some err) c None ctx)
         \<and> ((\<exists>e. serialize (transformer (options ctx)) (recoveryData ctx1) = Inl e
                  \<and> r = Inl e \<and> w1 = w)
            \<or> (\<exists>data. serialize (transformer (options ctx)) (recoveryData ctx1) = Inr data
                  \<and> trace w1 = trace w @ [Write (recoveryDataLocation (options ctx)) data]))"
proof -
  let ?ctx = "snd (save (Some err) c None ctx)"
  have o: "options ?ctx = options ctx" by (simp add: save_frame)
  from assms have c1: "ctx1 = ?ctx"
    by (auto simp add: on_failure_unfold split: prod.splits sum.splits)
  show ?thesis
  proof (cases "serialize (transformer (options ctx)) (recoveryData ?ctx)")
    case (Inl e)
    with o have "flushRecoveryData ?ctx w = (Inl e, w)" by (simp add: flushRecoveryData_def)
    with assms Inl c1 show ?thesis by (simp add: on_failure_unfold)
  next
    case (Inr data)
    obtain r2 w2 where wr: "transport_write ?ctx data w = (r2, w2)" by (metis prod.exhaust)
    from transport_write_trace [OF wr] o
    have "trace w2 = trace w @ [Write (recoveryDataLocation (options ctx)) data]" by simp
    moreover from Inr wr o have "flushRecoveryData ?ctx w = (r2, w2)"
      by (simp add: flushRecoveryData_def)
    with assms have "w1 = w2"
      by (auto simp add: on_failure_unfold split: sum.splits)
    ultimately show ?thesis using Inr c1 by simp
  qed
qed

lemma filter_replicate_Call:
  "filter is_exists (replicate n Call) = []" "filter is_read (replicate n Call) = []"
  "filter is_write (replicate n Call) = []"
  by (induction n) simp_all

lemma run_loop_trace:
  assumes "run_loop recovered cs v ctx w = (r, ctx1, w1)"
  shows "\<exists>evs. trace w1 = trace w @ evs \<and> filter is_exists evs = [] \<and> filter is_read evs = []
           \<and> length (filter is_write evs) \<le> 1
           \<and> (\<forall>e \<in> set evs. is_write e \<longrightarrow>
                 (\<exists>data. e = Write (recoveryDataLocation (options ctx)) data
                    \<and> serialize (transformer (options ctx)) (recoveryData ctx1) = Inr data))
           \<and> (filter is_write evs \<noteq> [] \<longleftrightarrow>
                 failing recovered cs v ctx w \<noteq> None
                 \<and> (\<exists>data. serialize (transformer (options ctx)) (recoveryData ctx1) = Inr data))"
proof (cases "failing recovered cs v ctx w")
  case None
  from run_loop_no_failing [OF None assms] obtain n where
    "trace w1 = trace w @ replicate n Call" by blast
  then have "trace w1 = trace w @ replicate n Call \<and> filter is_exists (replicate n Call) = []
     \<and> filter is_read (replicate n Call) = [] \<and> length (filter is_write (replicate n Call)) \<le> 1
     \<and> (\<forall>e \<in> set (replicate n Call). is_write e \<longrightarrow>
                 (\<exists>data. e = Write (recoveryDataLocation (options ctx)) data
                    \<and> serialize (transformer (options ctx)) (recoveryData ctx1) = Inr data))
     \<and> (filter is_write (replicate n Call) \<noteq> [] \<longleftrightarrow>
                 failing recovered cs v ctx w \<noteq> None
                 \<and> (\<exists>data. serialize (transformer (options ctx)) (recoveryData ctx1) = Inr data))"
    using None by (simp add: filter_replicate_Call)
  then show ?thesis by blast
next
  case (Some a)
  obtain C err c ctx2 w2 where a: "a = (C, err, c, ctx2, w2)" by (metis prod_cases5)
  with Some have f: "failing recovered cs v ctx w = Some (C, err, c, ctx2, w2)" by simp
  from failing_facts [OF f] obtain n where
    n: "trace w2 = trace w @ replicate n Call" and o: "options ctx2 = options ctx" by blast
  from run_loop_failing [OF f] assms have "on_failure err c ctx2 w2 = (r, ctx1, w1)" by simp
  from on_failure_cases [OF this] o
  consider (enc) e where "serialize (transformer (options ctx)) (recoveryData ctx1) = Inl e" "w1 = w2"
    | (wr) data where "serialize (transformer (options ctx)) (recoveryData ctx1) = Inr data"
        "trace w1 = trace w2 @ [Write (recoveryDataLocation (options ctx)) data]"
    by auto
  then show ?thesis
  proof cases
    case enc
    let ?evs = "replicate n Call"
    have "trace w1 = trace w @ ?evs \<and> filter is_exists ?evs = [] \<and> filter is_read ?evs = []
           \<and> length (filter is_write ?evs) \<le> 1
           \<and> (\<forall>e \<in> set ?evs. is_write e \<longrightarrow>
                 (\<exists>data. e = Write (recoveryDataLocation (options ctx)) data
                    \<and> serialize (transformer (options ctx)) (recoveryData ctx1) = Inr data))
           \<and> (filter is_write ?evs \<noteq> [] \<longleftrightarrow>
                 failing recovered cs v ctx w \<noteq> None
                 \<and> (\<exists>data. serialize (transformer (options ctx)) (recoveryData ctx1) = Inr data))"
      using enc n by (simp add: filter_replicate_Call)
    then show ?thesis by blast
  next
    case wr
    let ?evs = "replicate n Call @ [Write (recoveryDataLocation (options ctx)) data]"
    have "trace w1 = trace w @ ?evs \<and> filter is_exists ?evs = [] \<and> filter is_read ?evs = []
           \<and> length (filter is_write ?evs) \<le> 1
           \<and> (\<forall>e \<in> set ?evs. is_write e \<longrightarrow>
                 (\<exists>data. e = Write (recoveryDataLocation (options ctx)) data
                    \<and> serialize (transformer (options ctx)) (recoveryData ctx1) = Inr data))
           \<and> (filter is_write ?evs \<noteq> [] \<longleftrightarrow>
                 failing recovered cs v ctx w \<noteq> None
                 \<and> (\<exists>data. serialize (transformer (options ctx)) (recoveryData ctx1) = Inr data))"
      using wr n f by (auto simp add: filter_replicate_Call)
    then show ?thesis by blast
  qed
qed

lemma maybeRecover_events:
  assumes "maybeRecover eq ctx w = (r, ctx1, w1)"
  shows "\<exists>evs. trace w1 = trace w @ evs \<and> filter is_write evs = [] \<and> filter is_call evs = []
           \<and> length (filter is_read evs) \<le> 1 \<and> length (filter is_exists evs) \<le> 1
           \<and> (fromScratch (options ctx) \<longrightarrow> evs = [])"
proof (cases "fromScratch (options ctx)")
  case True
  with assms show ?thesis by (simp add: maybeRecover_def)
next
  case False
  with maybeRecover_trace [OF assms] show ?thesis by simp
qed

lemma run_trace:
  assumes "run eq ctx cs input w = (r, ctx', w')"
  shows "\<exists>evs. trace w' = trace w @ evs
           \<and> length (filter is_exists evs) \<le> 1 \<and> length (filter is_read evs) \<le> 1
           \<and> length (filter is_write evs) \<le> 1
           \<and> (fromScratch (options ctx) \<longrightarrow> filter is_exists evs = [] \<and> filter is_read evs = [])
           \<and> (\<forall>e \<in> set evs. is_write e \<longrightarrow>
                 (\<exists>data. e = Write (recoveryDataLocation (options ctx)) data
                    \<and> serialize (transformer (options ctx)) (recoveryData ctx') = Inr data))
           \<and> (filter is_write evs \<noteq> [] \<longleftrightarrow>
                 (\<exists>recovered ctx1 w1. maybeRecover eq ctx w = (Inr recovered, ctx1, w1)
                    \<and> failing recovered cs input ctx1 w1 \<noteq> None)
                 \<and> (\<exists>data. serialize (transformer (options ctx)) (recoveryData ctx') = Inr data))"
proof -
  obtain r1 ctx1 w1 where mr: "maybeRecover eq ctx w = (r1, ctx1, w1)" by (metis prod_cases3)
  from maybeRecover_events [OF mr] obtain evs1 where
    t1: "trace w1 = trace w @ evs1" and nw: "filter is_write evs1 = []"
    and rd: "length (filter is_read evs1) \<le> 1" and ex: "length (filter is_exists evs1) \<le> 1"
    and fs: "fromScratch (options ctx) \<longrightarrow> evs1 = []" by blast
  have nw': "\<forall>e \<in> set evs1. \<not> is_write e"
    using nw by (simp add: filter_empty_conv)
  show ?thesis
  proof (cases r1)
    case (Inl e)
    with mr assms have "w' = w1" by (simp add: run_def)
    with t1 nw nw' rd ex fs Inl mr show ?thesis by auto
  next
    case (Inr recovered)
    obtain r2 ctx2 w2 where rl: "run_loop recovered cs input ctx1 w1 = (r2, ctx2, w2)"
      by (metis prod_cases3)
    from Inr mr rl assms have eqs: "ctx' = ctx2" "w' = w2"
      by (auto simp add: run_def split: sum.splits)
    have o: "options ctx1 = options ctx" using maybeRecover_frame [OF mr] by simp
    from rl eqs have rl': "run_loop recovered cs input ctx1 w1 = (r2, ctx', w')" by simp
    obtain evs2 where
      t2: "trace w' = trace w1 @ evs2" and e2: "filter is_exists evs2 = []"
      and r2: "filter is_read evs2 = []" and w2: "length (filter is_write evs2) \<le> 1"
      and p2: "\<forall>e \<in> set evs2. is_write e \<longrightarrow>
                 (\<exists>data. e = Write (recoveryDataLocation (options ctx)) data
                    \<and> serialize (transformer (options ctx)) (recoveryData ctx') = Inr data)"
      and i2: "filter is_write evs2 \<noteq> [] \<longleftrightarrow>
                 failing recovered cs input ctx1 w1 \<noteq> None
                 \<and> (\<exists>data. serialize (transformer (options ctx)) (recoveryData ctx') = Inr data)"
      using run_loop_trace [OF rl', unfolded o] by blast
    have "trace w' = trace w @ (evs1 @ evs2)" using t1 t2 by simp
    moreover have "length (filter is_exists (evs1 @ evs2)) \<le> 1" using ex e2 by simp
    moreover have "length (filter is_read (evs1 @ evs2)) \<le> 1" using rd r2 by simp
    moreover have "length (filter is_write (evs1 @ evs2)) \<le> 1" using nw w2 by simp
    moreover have "fromScratch (options ctx) \<longrightarrow>
        filter is_exists (evs1 @ evs2) = [] \<and> filter is_read (evs1 @ evs2) = []"
      using fs e2 r2 by simp
    moreover have "\<forall>e \<in> set (evs1 @ evs2). is_write e \<longrightarrow>
                 (\<exists>data. e = Write (recoveryDataLocation (options ctx)) data
                    \<and> serialize (transformer (options ctx)) (recoveryData ctx') = Inr data)"
      using nw' p2 by auto
    moreover have "filter is_write (evs1 @ evs2) \<noteq> [] \<longleftrightarrow>
                 (\<exists>recovered ctx1 w1. maybeRecover eq ctx w = (Inr recovered, ctx1, w1)
                    \<and> failing recovered cs input ctx1 w1 \<noteq> None)
                 \<and> (\<exists>data. serialize (transformer (options ctx)) (recoveryData ctx') = Inr data)"
      using nw i2 mr Inr by simp
    ultimately show ?thesis by blast
  qed
qed

lemma run_results:
  assumes "run eq ctx cs input w = (r, ctx', w')"
  shows "\<exists>new. results ctx' = results ctx @ new"
proof -
  obtain r1 ctx1 w1 where mr: "maybeRecover eq ctx w = (r1, ctx1, w1)" by (metis prod_cases3)
  note fr = maybeRecover_frame [OF mr]
  show ?thesis
  proof (cases r1)
    case (Inl e)
    with mr assms fr show ?thesis by (simp add: run_def)
  next
    case (Inr recovered)
    obtain r2 ctx2 w2 where rl: "run_loop recovered cs input ctx1 w1 = (r2, ctx2, w2)"
      by (metis prod_cases3)
    from Inr mr rl assms have eqs: "ctx' = ctx2"
      by (auto simp add: run_def split: sum.splits)
    show ?thesis
    proof (cases "failing recovered cs input ctx1 w1")
      case None
      from run_loop_no_failing [OF None rl] fr eqs show ?thesis by simp
    next
      case (Some a)
      obtain C err c ctx3 w3 where "a = (C, err, c, ctx3, w3)" by (metis prod_cases5)
      with Some have f: "failing recovered cs input ctx1 w1 = Some (C, err, c, ctx3, w3)" by simp
      from run_loop_failing [OF f] rl have "on_failure err c ctx3 w3 = (r2, ctx2, w2)" by simp
      from on_failure_cases [OF this] have "results ctx2 = results ctx3"
        by (simp add: save_frame)
      with failing_facts [OF f] fr eqs show ?thesis by simp
    qed
  qed
qed

lemma run_failing:
  assumes mr: "maybeRecover eq ctx w = (Inr recovered, ctx1, w1)"
    and f: "failing recovered cs input ctx1 w1 = Some (C, err, c, ctx2, w2)"
    and o: "on_failure err c ctx2 w2 = (r, ctx3, w3)"
  shows "\<exists>e. r = Inl e \<and> run eq ctx cs input w = (Inl e, ctx3, w3)"
proof -
  from on_failure_Inl [of err c ctx2 w2] o obtain e where e: "r = Inl e" by auto
  with mr run_loop_failing [OF f] o show ?thesis by (simp add: run_def)
qed

text \<open>
  With the default transport, a flush whose encoding succeeds leaves the location in the
  state the recovery decision of a later run reads back.
\<close>

lemma flush_populates_location:
  assumes "transport (options ctx) = defaultTransport"
    and "serialize (transformer (options ctx)) (recoveryData ctx) = Inr data"
    and "options ctxB = options ctx"
    and "flushRecoveryData ctx w = (r, w')"
  shows "r = Inr ()
       \<and> transport_exists ctxB (w'\<lparr> trace := t \<rparr>)
           = (Inr True, \<lparr> external = external w',
                           trace = t @ [Exists (recoveryDataLocation (options ctx))] \<rparr>)
       \<and> transport_read ctxB (w'\<lparr> trace := t \<rparr>)
           = (Inr data, \<lparr> external = external w',
                           trace = t @ [Read (recoveryDataLocation (options ctx))] \<rparr>)"
  using assms
  by (auto simp add: flushRecoveryData_def transport_write_def transport_exists_def
        transport_read_def defaultTransport_def Let_def)

text \<open>Unfolding the examples.\<close>

lemmas ex_defs = PersistentComputationContext_def exampleOptions_def defaultTransport_def
  firstRunOf_def flushedAfter_def secondRunOf_def unflushedRun_def
  cloneTransformer_def emptyWorld_def worldWith_def exampleSnapshot_def
  transport_exists_def transport_read_def transport_write_def faultyTransport_def
  faultyTransformer_def EIO_def DataCloneError_def Let_def

lemmas run_defs = run_def maybeRecover_def sameDeps_def flushRecoveryData_def save_def step_def
  hasRecoveryData_def getStepValue_def invoke_def pushResult_def getLastResult_def
  new_computation_def markRecovered_def OneStepComputation_def ThrowingComputation_def MultiStepComputation_def class_name_def
  BaseComputationError_def ComputationFailedError_def TypeError_def
  getProperty_def objectPrototype_def mutateStepResult_def decimal.simps

section \<open>Claims\<close>

text \<open>
  C1, as amended. On a snapshot that has a \<open>computations\<close> object: a step call whose
  computation has a stored list longer than the cursor returns the stored value at the
  cursor (also a falsy one), leaves context and world untouched (the callback is not
  invoked) and moves the cursor by one. Otherwise, for a computation whose name is not
  one that a plain object inherits, the callback is invoked once. When it returns, its
  value is appended to the list stored under the computation's name (created when
  absent), which is the cursor position whenever the cursor does not run ahead of the
  list, the cursor moves by one and the value is returned. When it throws, the step call
  throws the same value and neither the snapshot nor the cursor changes.
\<close>

theorem step_replays_or_computes:
  assumes "computations (recoveryData ctx) = Some obj"
  shows "(obj (constructor_name c) = Some xs \<and> currentStepIndex c < length xs \<longrightarrow>
      step fn c ctx w =
        (Inr (xs ! currentStepIndex c), c\<lparr> currentStepIndex := currentStepIndex c + 1 \<rparr>, ctx, w))
   \<and> (constructor_name c \<notin> dom objectPrototype
        \<and> (\<forall>ys. obj (constructor_name c) = Some ys \<longrightarrow> length ys \<le> currentStepIndex c)
        \<and> fn (external w) = (Inr v, x) \<longrightarrow>
      step fn c ctx w =
        (Inr v, c\<lparr> currentStepIndex := currentStepIndex c + 1 \<rparr>,
         ctx\<lparr> recoveryData := (recoveryData ctx)
               \<lparr> computations := Some (obj(constructor_name c \<mapsto> stepDataOf ctx c @ [v])) \<rparr> \<rparr>,
         \<lparr> external = x, trace = trace w @ [Call] \<rparr>)
      \<and> (cursor_ok c ctx \<longrightarrow> (stepDataOf ctx c @ [v]) ! currentStepIndex c = v))
   \<and> (constructor_name c \<notin> dom objectPrototype
        \<and> (\<forall>ys. obj (constructor_name c) = Some ys \<longrightarrow> length ys \<le> currentStepIndex c)
        \<and> fn (external w) = (Inl e, x) \<longrightarrow>
      step fn c ctx w = (Inl e, c, ctx, \<lparr> external = x, trace = trace w @ [Call] \<rparr>))"
proof (intro conjI impI)
  assume "obj (constructor_name c) = Some xs \<and> currentStepIndex c < length xs"
  with assms show "step fn c ctx w =
        (Inr (xs ! currentStepIndex c), c\<lparr> currentStepIndex := currentStepIndex c + 1 \<rparr>, ctx, w)"
    by (intro step_replay [where obj = obj]) (simp_all add: stepValueAt_def getProperty_def)
next
  assume a: "constructor_name c \<notin> dom objectPrototype
        \<and> (\<forall>ys. obj (constructor_name c) = Some ys \<longrightarrow> length ys \<le> currentStepIndex c)
        \<and> fn (external w) = (Inr v, x)"
  with assms show "step fn c ctx w =
        (Inr v, c\<lparr> currentStepIndex := currentStepIndex c + 1 \<rparr>,
         ctx\<lparr> recoveryData := (recoveryData ctx)
               \<lparr> computations := Some (obj(constructor_name c \<mapsto> stepDataOf ctx c @ [v])) \<rparr> \<rparr>,
         \<lparr> external = x, trace = trace w @ [Call] \<rparr>)"
    by (auto simp add: step_def hasRecoveryData_def getProperty_def invoke_def save_def
          stepDataOf_def domIff
        split: option.splits)
  assume "cursor_ok c ctx"
  with a assms have "currentStepIndex c = length (stepDataOf ctx c)"
    by (auto simp add: cursor_ok_def stepDataOf_def split: option.splits)
  then show "(stepDataOf ctx c @ [v]) ! currentStepIndex c = v" by simp
next
  assume "constructor_name c \<notin> dom objectPrototype
        \<and> (\<forall>ys. obj (constructor_name c) = Some ys \<longrightarrow> length ys \<le> currentStepIndex c)
        \<and> fn (external w) = (Inl e, x)"
  with assms show "step fn c ctx w = (Inl e, c, ctx, \<lparr> external = x, trace = trace w @ [Call] \<rparr>)"
    by (auto simp add: step_def hasRecoveryData_def getProperty_def invoke_def domIff
        split: option.splits)
qed

theorem step_replays_or_computes_witness:
  "\<not> truthy (JBool False)
   \<and> step (\<lambda>x. (Inr (JNum 1), x)) oneStepInstance replayContext emptyWorld =
       (Inr (JBool False), oneStepInstance\<lparr> currentStepIndex := 1 \<rparr>,
        replayContext, emptyWorld)
   \<and> fst (step (\<lambda>x. (Inr (JNum 1), x)) oneStepInstance
            (PersistentComputationContext exampleOptions []) emptyWorld) = Inr (JNum 1)
   \<and> stepDataOf (fst (snd (snd (step (\<lambda>x. (Inr (JNum 1), x)) oneStepInstance
            (PersistentComputationContext exampleOptions []) emptyWorld))))
         oneStepInstance = [JNum 1]
   \<and> trace (snd (snd (snd (step (\<lambda>x. (Inr (JNum 1), x)) oneStepInstance
            (PersistentComputationContext exampleOptions []) emptyWorld)))) = [Call]
   \<and> step (\<lambda>x. (Inl EIO, x)) oneStepInstance
            (PersistentComputationContext exampleOptions []) emptyWorld
       = (Inl EIO, oneStepInstance,
          PersistentComputationContext exampleOptions [], emptyWorld\<lparr> trace := [Call] \<rparr>)"
proof -
  let ?c = oneStepInstance
  let ?ctx = "PersistentComputationContext exampleOptions []"
  have nm: "constructor_name ?c = ''OneStepComputation''" "currentStepIndex ?c = 0"
    by (simp_all add: oneStepInstance_def)
  have p1: "computations (recoveryData replayContext) = Some [''OneStepComputation'' \<mapsto> [JBool False]]"
    by (simp add: replayContext_def ex_defs)
  have a: "step (\<lambda>x. (Inr (JNum 1), x)) ?c replayContext emptyWorld =
       (Inr (JBool False), ?c\<lparr> currentStepIndex := 1 \<rparr>, replayContext, emptyWorld)"
    using step_replays_or_computes [OF p1, THEN conjunct1, rule_format, of ?c "[JBool False]"
          "\<lambda>x. (Inr (JNum 1), x)" emptyWorld]
    by (simp add: nm)
  have p2: "computations (recoveryData ?ctx) = Some Map.empty"
    by (simp add: ex_defs)
  have ni: "constructor_name ?c \<notin> dom objectPrototype"
    by (simp add: nm objectPrototype_def domIff)
  have sd: "stepDataOf ?ctx ?c = []"
    by (simp add: stepDataOf_def ex_defs)
  have b: "step (\<lambda>x. (Inr (JNum 1), x)) ?c ?ctx emptyWorld =
        (Inr (JNum 1), ?c\<lparr> currentStepIndex := 1 \<rparr>,
         ?ctx\<lparr> recoveryData := (recoveryData ?ctx)
               \<lparr> computations := Some [''OneStepComputation'' \<mapsto> [JNum 1]] \<rparr> \<rparr>,
         \<lparr> external = Map.empty, trace = [Call] \<rparr>)"
    using step_replays_or_computes [OF p2, THEN conjunct2, THEN conjunct1, rule_format,
          of ?c "\<lambda>x. (Inr (JNum 1), x)" emptyWorld "JNum 1" Map.empty] ni
    by (simp add: nm sd emptyWorld_def)
  have c: "step (\<lambda>x. (Inl EIO, x)) ?c ?ctx emptyWorld
       = (Inl EIO, ?c, ?ctx, \<lparr> external = Map.empty, trace = [Call] \<rparr>)"
    using step_replays_or_computes [OF p2, THEN conjunct2, THEN conjunct2, rule_format,
          of ?c "\<lambda>x. (Inl EIO, x)" emptyWorld EIO Map.empty] ni
    by (simp add: nm emptyWorld_def)
  show ?thesis
    unfolding a b c by (simp add: stepDataOf_def nm emptyWorld_def)
qed

text \<open>
  As stated, C1 fails for a callback that throws: the step call leaves the cursor where
  it was, so the cursor does not move by one per step call. It also fails where the
  lookup is not that of a map: for a class called \<open>hasOwnProperty\<close> and an empty
  snapshot the step answers \<open>undefined\<close> without invoking the callback, and on recovery
  data without \<open>computations\<close> the step throws a TypeError before either branch.
\<close>

theorem step_replays_or_computes_counterexample:
  "step (\<lambda>x. (Inl EIO, x)) oneStepInstance
        (PersistentComputationContext exampleOptions []) emptyWorld
     = (Inl EIO, oneStepInstance,
        PersistentComputationContext exampleOptions [], emptyWorld\<lparr> trace := [Call] \<rparr>)
   \<and> currentStepIndex oneStepInstance = 0
   \<and> computations (recoveryData (PersistentComputationContext exampleOptions [])) = Some Map.empty
   \<and> step (\<lambda>x. (Inr (JNum 1), x)) inheritedNameInstance
        (PersistentComputationContext exampleOptions []) emptyWorld
     = (Inr JUndefined, inheritedNameInstance\<lparr> currentStepIndex := 1 \<rparr>,
        PersistentComputationContext exampleOptions [], emptyWorld)
   \<and> step (\<lambda>x. (Inr (JNum 1), x)) oneStepInstance partialContext emptyWorld
     = (Inl (TypeError ''Cannot read properties of undefined (reading 'OneStepComputation')''),
        oneStepInstance, partialContext, emptyWorld)"
  by (simp add: oneStepInstance_def inheritedNameInstance_def partialContext_def run_defs ex_defs)




text \<open>
  C3. The recovery decision, once the location exists and was read: a falsy decoded value
  leaves the context as it was and reports "not recovered"; a decoded snapshot whose
  dependencies the comparator reports equal to the context's own replaces the whole
  recovery data and reports "recovered"; one whose dependencies differ is dropped and
  reports "not recovered".
\<close>

theorem recovery_decision:
  assumes "\<not> fromScratch (options ctx)"
    and "transport_exists ctx w = (Inr True, w1)"
    and "transport_read ctx w1 = (Inr data, w2)"
  shows "(deserialize (transformer (options ctx)) data = Inr None \<longrightarrow>
            maybeRecover eq ctx w = (Inr False, ctx, w2))
       \<and> (deserialize (transformer (options ctx)) data = Inr (Some loaded)
            \<and> eq (dependencies (recoveryData ctx)) (dependencies loaded) \<longrightarrow>
            maybeRecover eq ctx w = (Inr True, ctx\<lparr> recoveryData := loaded \<rparr>, w2))
       \<and> (deserialize (transformer (options ctx)) data = Inr (Some loaded)
            \<and> \<not> eq (dependencies (recoveryData ctx)) (dependencies loaded) \<longrightarrow>
            maybeRecover eq ctx w = (Inr False, ctx, w2))"
  using assms by (simp add: maybeRecover_def sameDeps_def)

theorem recovery_decision_witness:
  "fst (maybeRecover (=) (PersistentComputationContext exampleOptions []) (worldWith None))
     = Inr False
   \<and> computations (recoveryData (fst (snd (maybeRecover (=)
        (PersistentComputationContext exampleOptions []) (worldWith None)))))
       = Some Map.empty
   \<and> fst (maybeRecover (=) (PersistentComputationContext exampleOptions [])
        (worldWith (Some exampleSnapshot))) = Inr True
   \<and> recoveryData (fst (snd (maybeRecover (=) (PersistentComputationContext exampleOptions [])
        (worldWith (Some exampleSnapshot))))) = exampleSnapshot
   \<and> fst (maybeRecover (=) (PersistentComputationContext exampleOptions [(''dep'', JNum 1)])
        (worldWith (Some exampleSnapshot))) = Inr False
   \<and> computations (recoveryData (fst (snd (maybeRecover (=)
        (PersistentComputationContext exampleOptions [(''dep'', JNum 1)])
        (worldWith (Some exampleSnapshot)))))) = Some Map.empty"
proof -
  let ?c0 = "PersistentComputationContext exampleOptions []"
  let ?c1 = "PersistentComputationContext exampleOptions [(''dep'', JNum 1)]"
  let ?w1 = "\<lambda>s. snd (transport_exists ?c0 (worldWith s))"
  let ?w2 = "\<lambda>s. snd (transport_read ?c0 (?w1 s))"
  have a: "maybeRecover (=) ?c0 (worldWith None) = (Inr False, ?c0, ?w2 None)"
    using recovery_decision [where ctx = ?c0 and w = "worldWith None" and ?w1.0 = "?w1 None"
        and data = None and ?w2.0 = "?w2 None" and eq = "(=)"]
    by (simp add: ex_defs)
  have b: "maybeRecover (=) ?c0 (worldWith (Some exampleSnapshot)) =
             (Inr True, ?c0\<lparr> recoveryData := exampleSnapshot \<rparr>, ?w2 (Some exampleSnapshot))"
    using recovery_decision [where ctx = ?c0 and w = "worldWith (Some exampleSnapshot)"
        and ?w1.0 = "?w1 (Some exampleSnapshot)" and data = "Some exampleSnapshot"
        and ?w2.0 = "?w2 (Some exampleSnapshot)" and eq = "(=)" and loaded = exampleSnapshot]
    by (simp add: ex_defs)
  have c: "maybeRecover (=) ?c1 (worldWith (Some exampleSnapshot)) =
             (Inr False, ?c1, ?w2 (Some exampleSnapshot))"
    using recovery_decision [where ctx = ?c1 and w = "worldWith (Some exampleSnapshot)"
        and ?w1.0 = "?w1 (Some exampleSnapshot)" and data = "Some exampleSnapshot"
        and ?w2.0 = "?w2 (Some exampleSnapshot)" and eq = "(=)" and loaded = exampleSnapshot]
    by (simp add: ex_defs)
  show ?thesis
    unfolding a b c by (simp add: PersistentComputationContext_def)
qed

text \<open>
  C4, as amended. When the run method of some computation raises a truthy value (an
  error object, or any other truthy value) and neither encoding nor writing the snapshot
  throws: the value is stored in the snapshot, the encoded snapshot is written once,
  \<open>run\<close> fails with a \<open>ComputationFailedError\<close> whose \<open>cause\<close> is the value and
  whose \<open>step\<close> is the failing instance, and nothing runs after the failure (the
  events end with that write, the results are those collected before the failure).
\<close>

theorem computation_failure_path:
  assumes "maybeRecover eq ctx w = (Inr recovered, ctx1, w1)"
    and "failing recovered cs input ctx1 w1 = Some (C, err, c, ctx2, w2)"
    and "truthy_thrown err"
    and "serialize (transformer (options ctx)) ((recoveryData ctx2)\<lparr> error := Some err \<rparr>) = Inr data"
    and "t_write (transport (options ctx)) (recoveryDataLocation (options ctx)) data (external w2)
           = (Inr (), x)"
  shows "\<exists>wrapped. ComputationFailedError err c = Inr wrapped
       \<and> run eq ctx cs input w =
           (Inl wrapped,
            ctx2\<lparr> recoveryData := (recoveryData ctx2)\<lparr> error := Some err \<rparr> \<rparr>,
            \<lparr> external = x,
              trace = trace w2 @ [Write (recoveryDataLocation (options ctx)) data] \<rparr>)
       \<and> err_name wrapped = ''ComputationFailedError''
       \<and> err_cause wrapped = Some err
       \<and> err_step wrapped = Some c
       \<and> constructor_name c = class_name C"
proof -
  have o: "options ctx2 = options ctx"
    using failing_facts [OF assms(2)] maybeRecover_frame [OF assms(1)] by simp
  have n: "constructor_name c = class_name C"
    using failing_facts [OF assms(2)] by simp
  let ?ctx = "ctx2\<lparr> recoveryData := (recoveryData ctx2)\<lparr> error := Some err \<rparr> \<rparr>"
  let ?w = "\<lparr> external = x,
              trace = trace w2 @ [Write (recoveryDataLocation (options ctx)) data] \<rparr>"
  have sv: "snd (save (Some err) c None ctx2) = ?ctx"
    using assms(3) by (simp add: save_error_only)
  have fl: "flushRecoveryData ?ctx w2 = (Inr (), ?w)"
    using assms(4,5) o by (simp add: flushRecoveryData_def transport_write_def)
  from assms(3) obtain m where m: "message_of err = Inr m"
    by (cases err rule: message_of.cases) auto
  let ?wrapped = "Exn ''ComputationFailedError''
                 (''Computation failed on step '' @ constructor_name c
                    @ '' due to this error: '' @ js_to_string m)
                 (Some err) (Some c)"
  have cf: "ComputationFailedError err c = Inr ?wrapped"
    using m by (simp add: ComputationFailedError_def)
  have "on_failure err c ctx2 w2 = (Inl ?wrapped, ?ctx, ?w)"
    using sv fl cf by (simp add: on_failure_unfold)
  from run_failing [OF assms(1,2) this]
  have "run eq ctx cs input w = (Inl ?wrapped, ?ctx, ?w)" by simp
  with cf n show ?thesis by simp
qed

theorem computation_failure_path_witness:
  "fst (run (=) (PersistentComputationContext exampleOptions [])
          [Class OneStepComputation, Class ThrowingComputation, Class OneStepComputation]
          JUndefined emptyWorld)
     = Inl (Exn ''ComputationFailedError''
              ''Computation failed on step ThrowingComputation due to this error: ComputationErrorMessage''
              (Some (BaseComputationError ''ComputationErrorMessage''))
              (Some \<lparr> constructor_name = ''ThrowingComputation'', hasRecoveryDataFlag = False, currentStepIndex = 0 \<rparr>))
   \<and> error (recoveryData (fst (snd (run (=) (PersistentComputationContext exampleOptions [])
          [Class OneStepComputation, Class ThrowingComputation, Class OneStepComputation]
          JUndefined emptyWorld))))
     = Some (BaseComputationError ''ComputationErrorMessage'')
   \<and> filter is_call (trace (snd (snd (run (=) (PersistentComputationContext exampleOptions [])
          [Class OneStepComputation, Class ThrowingComputation, Class OneStepComputation]
          JUndefined emptyWorld)))) = [Call]
   \<and> length (filter is_write (trace (snd (snd (run (=) (PersistentComputationContext exampleOptions [])
          [Class OneStepComputation, Class ThrowingComputation, Class OneStepComputation]
          JUndefined emptyWorld))))) = 1"
proof -
  let ?ctx = "PersistentComputationContext exampleOptions []"
  let ?cs = "[Class OneStepComputation, Class ThrowingComputation, Class OneStepComputation]"
  let ?w1 = "snd (snd (maybeRecover (=) ?ctx emptyWorld))"
  let ?f = "the (failing False ?cs JUndefined ?ctx ?w1)"
  let ?err = "BaseComputationError ''ComputationErrorMessage''"
  let ?c = "\<lparr> constructor_name = ''ThrowingComputation'', hasRecoveryDataFlag = False, currentStepIndex = 0 \<rparr>"
  let ?ctx2 = "fst (snd (snd (snd ?f)))"
  let ?w2 = "snd (snd (snd (snd ?f)))"
  let ?data = "Some ((recoveryData ?ctx2)\<lparr> error := Some ?err \<rparr>)"
  let ?x = "(external ?w2)(''.recovery'' \<mapsto> ?data)"
  have mr: "maybeRecover (=) ?ctx emptyWorld = (Inr False, ?ctx, ?w1)"
    by (simp add: run_defs ex_defs)
  have f: "failing False ?cs JUndefined ?ctx ?w1 = Some (ThrowingComputation, ?err, ?c, ?ctx2, ?w2)"
    by (simp add: run_defs ex_defs)
  have tt: "truthy_thrown ?err" by (simp add: BaseComputationError_def)
  have enc: "serialize (transformer (options ?ctx)) ((recoveryData ?ctx2)\<lparr> error := Some ?err \<rparr>)
               = Inr ?data"
    by (simp add: ex_defs)
  have wr: "t_write (transport (options ?ctx)) (recoveryDataLocation (options ?ctx)) ?data (external ?w2)
              = (Inr (), ?x)"
    by (simp add: ex_defs)
  from computation_failure_path [OF mr f tt enc wr] obtain wrapped where
    cf: "ComputationFailedError ?err ?c = Inr wrapped"
    and r: "run (=) ?ctx ?cs JUndefined emptyWorld =
           (Inl wrapped,
            ?ctx2\<lparr> recoveryData := (recoveryData ?ctx2)\<lparr> error := Some ?err \<rparr> \<rparr>,
            \<lparr> external = ?x,
              trace = trace ?w2 @ [Write (recoveryDataLocation (options ?ctx)) ?data] \<rparr>)"
    by blast
  have tr: "trace ?w2 = [Exists ''.recovery'', Call]"
    by (simp add: run_defs ex_defs)
  from cf have w: "wrapped = Exn ''ComputationFailedError''
              ''Computation failed on step ThrowingComputation due to this error: ComputationErrorMessage''
              (Some ?err) (Some ?c)"
    by (simp add: ComputationFailedError_def BaseComputationError_def)
  show ?thesis
    unfolding r w by (simp add: tr del: failing.simps)
qed

text \<open>
  As stated, C4 fails in three ways. When the write of the failure path throws, \<open>run\<close>
  fails with the transport's error, which names no computation and has no cause. When
  the run method throws \<open>undefined\<close> (as an awaited \<open>Promise.reject()\<close> does), nothing
  is recorded and \<open>run\<close> fails with the TypeError of the error constructor. When it
  throws another falsy value, the wrapped error is thrown but nothing is recorded.
\<close>

theorem computation_failure_path_counterexample:
  "fst (maybeRecover (=) writeFaultContext emptyWorld) = Inr False
   \<and> failing False [Class ThrowingComputation] JUndefined writeFaultContext
        (snd (snd (maybeRecover (=) writeFaultContext emptyWorld))) \<noteq> None
   \<and> fst (run (=) writeFaultContext [Class ThrowingComputation] JUndefined emptyWorld) = Inl EIO
   \<and> err_name EIO \<noteq> ''ComputationFailedError'' \<and> err_cause EIO = None \<and> err_step EIO = None
   \<and> fst (firstRunOf [Class RejectingComputation] JUndefined)
       = Inl (TypeError ''Cannot read properties of undefined (reading 'message')'')
   \<and> error (recoveryData (fst (snd (firstRunOf [Class RejectingComputation] JUndefined)))) = None
   \<and> length (filter is_write (trace (snd (snd (firstRunOf [Class RejectingComputation] JUndefined))))) = 1
   \<and> fst (firstRunOf [Class ThrowingZeroComputation] JUndefined)
       = Inl (Exn ''ComputationFailedError''
                ''Computation failed on step ThrowingZeroComputation due to this error: undefined''
                (Some (Value (JNum 0)))
                (Some \<lparr> constructor_name = ''ThrowingZeroComputation'',
                        hasRecoveryDataFlag = False, currentStepIndex = 0 \<rparr>))
   \<and> error (recoveryData (fst (snd (firstRunOf [Class ThrowingZeroComputation] JUndefined)))) = None"
  by (simp add: writeFaultContext_def RejectingComputation_def ThrowingZeroComputation_def
        run_defs ex_defs)

text \<open>
  C5, as amended. The events of one \<open>run\<close> contain at most one read and at most one
  write; a write occurs exactly when a computation raised and encoding the snapshot did
  not throw, and it carries the encoding of the whole snapshot to the recovery location.
  An explicit flush issues exactly one such write when encoding succeeds and none when
  it throws.
\<close>

theorem reads_and_writes_per_run:
  "(run eq ctx cs input w = (r, ctx', w') \<longrightarrow>
      (\<exists>evs. trace w' = trace w @ evs
         \<and> length (filter is_read evs) \<le> 1 \<and> length (filter is_write evs) \<le> 1
         \<and> (filter is_write evs \<noteq> [] \<longleftrightarrow>
               (\<exists>recovered ctx1 w1. maybeRecover eq ctx w = (Inr recovered, ctx1, w1)
                  \<and> failing recovered cs input ctx1 w1 \<noteq> None)
               \<and> (\<exists>data. serialize (transformer (options ctx)) (recoveryData ctx') = Inr data))
         \<and> (\<forall>e \<in> set evs. is_write e \<longrightarrow>
               (\<exists>data. e = Write (recoveryDataLocation (options ctx)) data
                  \<and> serialize (transformer (options ctx)) (recoveryData ctx') = Inr data))))
   \<and> (flushRecoveryData ctx w = (fr, fw) \<longrightarrow>
      (case serialize (transformer (options ctx)) (recoveryData ctx) of
         Inl e \<Rightarrow> fr = Inl e \<and> fw = w
       | Inr data \<Rightarrow> trace fw = trace w @ [Write (recoveryDataLocation (options ctx)) data]))"
proof (intro conjI impI)
  assume "run eq ctx cs input w = (r, ctx', w')"
  from run_trace [OF this] show "\<exists>evs. trace w' = trace w @ evs
         \<and> length (filter is_read evs) \<le> 1 \<and> length (filter is_write evs) \<le> 1
         \<and> (filter is_write evs \<noteq> [] \<longleftrightarrow>
               (\<exists>recovered ctx1 w1. maybeRecover eq ctx w = (Inr recovered, ctx1, w1)
                  \<and> failing recovered cs input ctx1 w1 \<noteq> None)
               \<and> (\<exists>data. serialize (transformer (options ctx)) (recoveryData ctx') = Inr data))
         \<and> (\<forall>e \<in> set evs. is_write e \<longrightarrow>
               (\<exists>data. e = Write (recoveryDataLocation (options ctx)) data
                  \<and> serialize (transformer (options ctx)) (recoveryData ctx') = Inr data))"
    by blast
next
  assume f: "flushRecoveryData ctx w = (fr, fw)"
  show "case serialize (transformer (options ctx)) (recoveryData ctx) of
         Inl e \<Rightarrow> fr = Inl e \<and> fw = w
       | Inr data \<Rightarrow> trace fw = trace w @ [Write (recoveryDataLocation (options ctx)) data]"
  proof (cases "serialize (transformer (options ctx)) (recoveryData ctx)")
    case (Inl e)
    with f show ?thesis by (simp add: flushRecoveryData_def)
  next
    case (Inr data)
    with f have "transport_write ctx data w = (fr, fw)" by (simp add: flushRecoveryData_def)
    from transport_write_trace [OF this] Inr show ?thesis by simp
  qed
qed

theorem reads_and_writes_per_run_witness:
  "trace (snd (snd (run (=) (PersistentComputationContext exampleOptions [])
      [Class ThrowingComputation] JUndefined (worldWith (Some exampleSnapshot)))))
     = [Exists ''.recovery'', Read ''.recovery'',
        Write ''.recovery'' (Some (exampleSnapshot\<lparr> error :=
           Some (BaseComputationError ''ComputationErrorMessage'') \<rparr>))]
   \<and> trace (snd (flushRecoveryData replayContext emptyWorld))
     = [Write ''.recovery'' (Some exampleSnapshot)]"
proof -
  let ?ctx = "PersistentComputationContext exampleOptions []"
  let ?run = "run (=) ?ctx [Class ThrowingComputation] JUndefined (worldWith (Some exampleSnapshot))"
  let ?fl = "flushRecoveryData replayContext emptyWorld"
  have a: "trace (snd ?fl) = [Write ''.recovery'' (Some exampleSnapshot)]"
    using reads_and_writes_per_run [where ctx = replayContext and w = emptyWorld
        and fr = "fst ?fl" and fw = "snd ?fl"]
    by (simp add: replayContext_def ex_defs)
  have "\<exists>evs. trace (snd (snd ?run)) = trace (worldWith (Some exampleSnapshot)) @ evs
          \<and> length (filter is_read evs) \<le> 1 \<and> length (filter is_write evs) \<le> 1"
  proof -
    have h: "?run = (fst ?run, fst (snd ?run), snd (snd ?run))" by simp
    from reads_and_writes_per_run [THEN conjunct1, rule_format, OF h]
    show ?thesis by blast
  qed
  moreover have "trace (snd (snd ?run))
     = [Exists ''.recovery'', Read ''.recovery'',
        Write ''.recovery'' (Some (exampleSnapshot\<lparr> error :=
           Some (BaseComputationError ''ComputationErrorMessage'') \<rparr>))]"
    by (simp add: run_defs ex_defs)
  ultimately have b: "trace (snd (snd ?run))
     = [Exists ''.recovery'', Read ''.recovery'',
        Write ''.recovery'' (Some (exampleSnapshot\<lparr> error :=
           Some (BaseComputationError ''ComputationErrorMessage'') \<rparr>))]"
    by simp
  from a b show ?thesis by simp
qed

text \<open>
  As stated, C5 fails when \<open>serialize\<close> throws on the failure path: a computation
  raised, and no write is issued.
\<close>

theorem reads_and_writes_per_run_counterexample:
  "fst (maybeRecover (=) serializeFaultContext emptyWorld) = Inr False
   \<and> failing False [Class ThrowingComputation] JUndefined serializeFaultContext
        (snd (snd (maybeRecover (=) serializeFaultContext emptyWorld))) \<noteq> None
   \<and> filter is_write (trace (snd (snd
        (run (=) serializeFaultContext [Class ThrowingComputation] JUndefined emptyWorld)))) = []"
  by (simp add: serializeFaultContext_def run_defs ex_defs)

text \<open>
  C6. With \<open>fromScratch\<close> set, the recovery decision answers "not recovered" without
  touching the world, the loop runs with \<open>recovered = false\<close>, and the events of the
  whole \<open>run\<close> contain neither an existence check nor a read, whatever is stored.
\<close>

theorem fromScratch_skips_recovery:
  assumes "fromScratch (options ctx)"
  shows "maybeRecover eq ctx w = (Inr False, ctx, w)
       \<and> run eq ctx cs input w =
           (case run_loop False cs input ctx w of
              (Inl e, ctx2, w2) \<Rightarrow> (Inl e, ctx2, w2)
            | (Inr u, ctx2, w2) \<Rightarrow> (Inr (getLastResult ctx2), ctx2, w2))
       \<and> (\<exists>evs. trace (snd (snd (run eq ctx cs input w))) = trace w @ evs
              \<and> filter is_exists evs = [] \<and> filter is_read evs = [])"
proof -
  have m: "maybeRecover eq ctx w = (Inr False, ctx, w)"
    using assms by (rule maybeRecover_fromScratch)
  obtain r ctx' w' where r: "run eq ctx cs input w = (r, ctx', w')" by (metis prod_cases3)
  from run_trace [OF r] assms
  have "\<exists>evs. trace w' = trace w @ evs \<and> filter is_exists evs = [] \<and> filter is_read evs = []"
    by blast
  with r m show ?thesis by (simp add: run_def)
qed

theorem fromScratch_skips_recovery_witness:
  "fromScratch (options (PersistentComputationContext (exampleOptions\<lparr> fromScratch := True \<rparr>) []))
   \<and> external (worldWith (Some exampleSnapshot)) ''.recovery'' = Some (Some exampleSnapshot)
   \<and> fst (maybeRecover (=) (PersistentComputationContext (exampleOptions\<lparr> fromScratch := True \<rparr>) [])
            (worldWith (Some exampleSnapshot))) = Inr False
   \<and> trace (snd (snd (run (=) (PersistentComputationContext (exampleOptions\<lparr> fromScratch := True \<rparr>) [])
        [Class OneStepComputation] JUndefined (worldWith (Some exampleSnapshot))))) = [Call]"
proof -
  let ?c = "PersistentComputationContext (exampleOptions\<lparr> fromScratch := True \<rparr>) []"
  have fs: "fromScratch (options ?c)" by (simp add: ex_defs)
  note t = fromScratch_skips_recovery [OF fs, of "(=)" "worldWith (Some exampleSnapshot)"
      "[Class OneStepComputation]" JUndefined]
  from t have "run (=) ?c [Class OneStepComputation] JUndefined (worldWith (Some exampleSnapshot)) =
     (case run_loop False [Class OneStepComputation] JUndefined ?c (worldWith (Some exampleSnapshot)) of
              (Inl e, ctx2, w2) \<Rightarrow> (Inl e, ctx2, w2)
            | (Inr u, ctx2, w2) \<Rightarrow> (Inr (getLastResult ctx2), ctx2, w2))" by blast
  then have "trace (snd (snd (run (=) ?c [Class OneStepComputation] JUndefined
               (worldWith (Some exampleSnapshot))))) = [Call]"
    by (simp add: run_defs ex_defs)
  with t fs show ?thesis by (simp add: worldWith_def)
qed

text \<open>
  C7. An error thrown by \<open>exists\<close>, \<open>read\<close> or \<open>deserialize\<close> during recovery, or by
  \<open>serialize\<close> or \<open>write\<close> during a flush (an explicit one, or the one of the failure
  path of \<open>run\<close>), is the error the caller gets, as it was thrown: it is not wrapped
  in a \<open>ComputationFailedError\<close>.
\<close>

theorem capability_faults_propagate:
  "(\<not> fromScratch (options ctx) \<and> transport_exists ctx w = (Inl e, w1) \<longrightarrow>
       run eq ctx cs input w = (Inl e, ctx, w1))
   \<and> (\<not> fromScratch (options ctx) \<and> transport_exists ctx w = (Inr True, w1)
        \<and> transport_read ctx w1 = (Inl e, w2) \<longrightarrow>
       run eq ctx cs input w = (Inl e, ctx, w2))
   \<and> (\<not> fromScratch (options ctx) \<and> transport_exists ctx w = (Inr True, w1)
        \<and> transport_read ctx w1 = (Inr data, w2)
        \<and> deserialize (transformer (options ctx)) data = Inl e \<longrightarrow>
       run eq ctx cs input w = (Inl e, ctx, w2))
   \<and> (serialize (transformer (options ctx)) (recoveryData ctx) = Inl e \<longrightarrow>
       flushRecoveryData ctx w = (Inl e, w))
   \<and> (serialize (transformer (options ctx)) (recoveryData ctx) = Inr data
        \<and> transport_write ctx data w = (Inl e, w1) \<longrightarrow>
       flushRecoveryData ctx w = (Inl e, w1))
   \<and> (maybeRecover eq ctx w = (Inr recovered, ctx1, w1)
        \<and> failing recovered cs input ctx1 w1 = Some (C, err, c, ctx2, w2)
        \<and> flushRecoveryData (snd (save (Some err) c None ctx2)) w2 = (Inl e, w3) \<longrightarrow>
       run eq ctx cs input w = (Inl e, snd (save (Some err) c None ctx2), w3))"
proof (intro conjI impI)
  assume "\<not> fromScratch (options ctx) \<and> transport_exists ctx w = (Inl e, w1)"
  then show "run eq ctx cs input w = (Inl e, ctx, w1)"
    by (simp add: run_def maybeRecover_def)
next
  assume "\<not> fromScratch (options ctx) \<and> transport_exists ctx w = (Inr True, w1)
        \<and> transport_read ctx w1 = (Inl e, w2)"
  then show "run eq ctx cs input w = (Inl e, ctx, w2)"
    by (simp add: run_def maybeRecover_def)
next
  assume "\<not> fromScratch (options ctx) \<and> transport_exists ctx w = (Inr True, w1)
        \<and> transport_read ctx w1 = (Inr data, w2)
        \<and> deserialize (transformer (options ctx)) data = Inl e"
  then show "run eq ctx cs input w = (Inl e, ctx, w2)"
    by (simp add: run_def maybeRecover_def)
next
  assume "serialize (transformer (options ctx)) (recoveryData ctx) = Inl e"
  then show "flushRecoveryData ctx w = (Inl e, w)"
    by (simp add: flushRecoveryData_def)
next
  assume "serialize (transformer (options ctx)) (recoveryData ctx) = Inr data
        \<and> transport_write ctx data w = (Inl e, w1)"
  then show "flushRecoveryData ctx w = (Inl e, w1)"
    by (simp add: flushRecoveryData_def)
next
  assume a: "maybeRecover eq ctx w = (Inr recovered, ctx1, w1)
        \<and> failing recovered cs input ctx1 w1 = Some (C, err, c, ctx2, w2)
        \<and> flushRecoveryData (snd (save (Some err) c None ctx2)) w2 = (Inl e, w3)"
  then have "on_failure err c ctx2 w2 = (Inl e, snd (save (Some err) c None ctx2), w3)"
    by (simp add: on_failure_unfold)
  from run_failing [OF _ _ this] a
  show "run eq ctx cs input w = (Inl e, snd (save (Some err) c None ctx2), w3)"
    by blast
qed

theorem capability_faults_propagate_witness:
  "fst (run (=) (PersistentComputationContext
           (exampleOptions\<lparr> transport := faultyTransport True False False \<rparr>) [])
         [Class OneStepComputation] JUndefined emptyWorld) = Inl EIO
   \<and> fst (run (=) (PersistentComputationContext
           (exampleOptions\<lparr> transport := faultyTransport False True False \<rparr>) [])
         [Class OneStepComputation] JUndefined (worldWith (Some exampleSnapshot))) = Inl EIO
   \<and> fst (run (=) (PersistentComputationContext
           (exampleOptions\<lparr> transformer := faultyTransformer False True \<rparr>) [])
         [Class OneStepComputation] JUndefined (worldWith (Some exampleSnapshot)))
       = Inl DataCloneError
   \<and> flushRecoveryData serializeFaultContext emptyWorld = (Inl DataCloneError, emptyWorld)
   \<and> fst (flushRecoveryData writeFaultContext emptyWorld) = Inl EIO
   \<and> fst (run (=) writeFaultContext [Class ThrowingComputation] JUndefined emptyWorld) = Inl EIO"
proof -
  let ?cE = "PersistentComputationContext
           (exampleOptions\<lparr> transport := faultyTransport True False False \<rparr>) []"
  let ?cR = "PersistentComputationContext
           (exampleOptions\<lparr> transport := faultyTransport False True False \<rparr>) []"
  let ?cD = "PersistentComputationContext
           (exampleOptions\<lparr> transformer := faultyTransformer False True \<rparr>) []"
  let ?cs = "[Class OneStepComputation]"
  let ?ws = "worldWith (Some exampleSnapshot)"
  have a: "run (=) ?cE ?cs JUndefined emptyWorld
             = (Inl EIO, ?cE, snd (transport_exists ?cE emptyWorld))"
    using capability_faults_propagate [where ctx = ?cE and w = emptyWorld and e = EIO
        and ?w1.0 = "snd (transport_exists ?cE emptyWorld)" and eq = "(=)" and cs = ?cs
        and input = JUndefined]
    by (simp add: ex_defs)
  have b: "run (=) ?cR ?cs JUndefined ?ws
             = (Inl EIO, ?cR, snd (transport_read ?cR (snd (transport_exists ?cR ?ws))))"
    using capability_faults_propagate [where ctx = ?cR and w = ?ws and e = EIO
        and ?w1.0 = "snd (transport_exists ?cR ?ws)"
        and ?w2.0 = "snd (transport_read ?cR (snd (transport_exists ?cR ?ws)))"
        and eq = "(=)" and cs = ?cs and input = JUndefined]
    by (simp add: ex_defs)
  have c: "run (=) ?cD ?cs JUndefined ?ws
             = (Inl DataCloneError, ?cD, snd (transport_read ?cD (snd (transport_exists ?cD ?ws))))"
    using capability_faults_propagate [where ctx = ?cD and w = ?ws and e = DataCloneError
        and ?w1.0 = "snd (transport_exists ?cD ?ws)"
        and ?w2.0 = "snd (transport_read ?cD (snd (transport_exists ?cD ?ws)))"
        and data = "Some exampleSnapshot"
        and eq = "(=)" and cs = ?cs and input = JUndefined]
    by (simp add: ex_defs)
  have d: "flushRecoveryData serializeFaultContext emptyWorld = (Inl DataCloneError, emptyWorld)"
    using capability_faults_propagate [where ctx = serializeFaultContext and w = emptyWorld
        and e = DataCloneError]
    by (simp add: serializeFaultContext_def ex_defs)
  let ?d = "Some (recoveryData writeFaultContext)"
  have e: "flushRecoveryData writeFaultContext emptyWorld
             = (Inl EIO, snd (transport_write writeFaultContext ?d emptyWorld))"
    using capability_faults_propagate [where ctx = writeFaultContext and w = emptyWorld
        and e = EIO and data = ?d
        and ?w1.0 = "snd (transport_write writeFaultContext ?d emptyWorld)"]
    by (simp add: writeFaultContext_def ex_defs)
  let ?w1 = "snd (snd (maybeRecover (=) writeFaultContext emptyWorld))"
  let ?err = "BaseComputationError ''ComputationErrorMessage''"
  let ?c = "\<lparr> constructor_name = ''ThrowingComputation'', hasRecoveryDataFlag = False,
              currentStepIndex = 0 \<rparr>"
  let ?ctx'' = "snd (save (Some ?err) ?c None writeFaultContext)"
  let ?w3 = "snd (flushRecoveryData ?ctx'' ?w1)"
  have f: "run (=) writeFaultContext [Class ThrowingComputation] JUndefined emptyWorld
             = (Inl EIO, ?ctx'', ?w3)"
    using capability_faults_propagate [where ctx = writeFaultContext and w = emptyWorld
        and eq = "(=)" and recovered = False and ?ctx1.0 = writeFaultContext and ?w1.0 = ?w1
        and cs = "[Class ThrowingComputation]" and input = JUndefined
        and C = ThrowingComputation and err = ?err and c = ?c and ?ctx2.0 = writeFaultContext
        and ?w2.0 = ?w1 and e = EIO and ?w3.0 = ?w3]
    by (simp add: writeFaultContext_def run_defs ex_defs)
  show ?thesis
    unfolding a b c d e f by simp
qed




text \<open>
  C9. The loop applies \<open>new\<close> to every element of the list. For an element that is an
  instance \<open>run\<close> fails with a TypeError before anything is executed: no callback is
  invoked and no result is recorded.
\<close>

theorem instance_in_run_list_rejected:
  "fst (run (=) (PersistentComputationContext exampleOptions []) [Instance OneStepComputation]
          JUndefined emptyWorld) = Inl (TypeError ''Computation is not a constructor'')
   \<and> results (fst (snd (run (=) (PersistentComputationContext exampleOptions [])
          [Instance OneStepComputation] JUndefined emptyWorld))) = []
   \<and> filter is_call (trace (snd (snd (run (=) (PersistentComputationContext exampleOptions [])
          [Instance OneStepComputation] JUndefined emptyWorld)))) = []"
  by (simp add: run_defs ex_defs)

text \<open>
  C10, as amended. A new context starts with no results; what a flush writes does not
  depend on the results; every write of a \<open>run\<close> carries the encoding of the recovery
  data, which has no results in it; and a \<open>run\<close> appends its results to those the
  context already holds.
\<close>

theorem run_results_not_persisted:
  "results (PersistentComputationContext opts deps) = []
   \<and> flushRecoveryData (ctx\<lparr> results := rs \<rparr>) w = flushRecoveryData ctx w
   \<and> (run eq ctx cs input w = (r, ctx', w') \<longrightarrow>
        (\<exists>new. results ctx' = results ctx @ new)
        \<and> (\<exists>evs. trace w' = trace w @ evs
              \<and> (\<forall>e \<in> set evs. is_write e \<longrightarrow>
                    (\<exists>data. e = Write (recoveryDataLocation (options ctx)) data
                       \<and> serialize (transformer (options ctx)) (recoveryData ctx') = Inr data))))"
proof (intro conjI impI)
  show "results (PersistentComputationContext opts deps) = []"
    by (simp add: PersistentComputationContext_def)
  show "flushRecoveryData (ctx\<lparr> results := rs \<rparr>) w = flushRecoveryData ctx w"
    by (simp add: flushRecoveryData_def transport_write_def split: sum.splits)
next
  assume r: "run eq ctx cs input w = (r, ctx', w')"
  from run_results [OF r] show "\<exists>new. results ctx' = results ctx @ new" .
  from run_trace [OF r] show "\<exists>evs. trace w' = trace w @ evs
              \<and> (\<forall>e \<in> set evs. is_write e \<longrightarrow>
                    (\<exists>data. e = Write (recoveryDataLocation (options ctx)) data
                       \<and> serialize (transformer (options ctx)) (recoveryData ctx') = Inr data))"
    by blast
qed

theorem run_results_not_persisted_witness:
  "results (fst (snd firstRun))
     = [\<lparr> result_name = ''OneStepComputation'', result_value = JObj [(''data'', JNum 42)] \<rparr>]
   \<and> trace (snd (snd firstRun)) = [Exists ''.recovery'', Call]"
proof -
  have h: "run (=) (PersistentComputationContext exampleOptions []) [Class OneStepComputation]
             JUndefined emptyWorld = (fst firstRun, fst (snd firstRun), snd (snd firstRun))"
    by (simp add: firstRun_def)
  from run_results_not_persisted [THEN conjunct2, THEN conjunct2, rule_format, OF h]
  obtain new where "results (fst (snd firstRun))
      = results (PersistentComputationContext exampleOptions []) @ new" by blast
  moreover have "results (fst (snd firstRun))
     = [\<lparr> result_name = ''OneStepComputation'', result_value = JObj [(''data'', JNum 42)] \<rparr>]"
    by (simp add: firstRun_def run_defs ex_defs)
  moreover have "trace (snd (snd firstRun)) = [Exists ''.recovery'', Call]"
    by (simp add: firstRun_def run_defs ex_defs)
  ultimately show ?thesis by simp
qed

text \<open>
  As stated, C10 fails: the results outlive the run. A later \<open>run\<close> on the same context
  starts with the results of the earlier one: with an empty list it returns the earlier
  result, and with the same list it ends with both.
\<close>

theorem run_results_not_persisted_counterexample:
  "results (fst (snd firstRun))
     = [\<lparr> result_name = ''OneStepComputation'', result_value = JObj [(''data'', JNum 42)] \<rparr>]
   \<and> fst (run (=) (fst (snd firstRun)) [] JUndefined (snd (snd firstRun)))
     = Inr (Some \<lparr> result_name = ''OneStepComputation'', result_value = JObj [(''data'', JNum 42)] \<rparr>)
   \<and> results (fst (snd (run (=) (fst (snd firstRun)) [Class OneStepComputation] JUndefined
                           (snd (snd firstRun)))))
     = [\<lparr> result_name = ''OneStepComputation'', result_value = JObj [(''data'', JNum 42)] \<rparr>,
        \<lparr> result_name = ''OneStepComputation'', result_value = JObj [(''data'', JNum 42)] \<rparr>]"
  by (simp add: firstRun_def run_defs ex_defs)

end
